theory Spec2Isabelle
  imports Main "HOL-Library.AList"
begin

section \<open>Layout model\<close>

text \<open>
  The workspace descriptor of \<^verbatim>\<open>bin/tx.js\<close>: the object
  \<^verbatim>\<open>{ name, baseDir, panes: [{ split, directory, command, resize: { type, value } }] }\<close>.
  A property that is absent, \<^verbatim>\<open>undefined\<close> or \<^verbatim>\<open>null\<close> is \<open>None\<close>: the
  program only ever tests such a property for truthiness or compares it with a string.
  The resize type and the split direction stay strings, as the program compares them
  with \<^verbatim>\<open>===\<close> against string constants; the resize value is an integer.
\<close>

record resize =
  type :: string
  "value" :: int

record pane =
  split :: "string option"
  directory :: "string option"
  command :: "string option"
  resize :: "resize option"

record config =
  name :: string
  baseDir :: string
  panes :: "pane list"

text \<open>Truthiness of a string-valued property: absent, null and the empty string are falsy.\<close>

fun truthy :: "string option \<Rightarrow> bool" where
  "truthy None = False"
| "truthy (Some s) = (s \<noteq> [])"

text \<open>The expression \<^verbatim>\<open>v || d\<close> on a string-valued property.\<close>

fun or_default :: "string option \<Rightarrow> string \<Rightarrow> string" where
  "or_default None d = d"
| "or_default (Some s) d = (if s = [] then d else s)"

subsection \<open>Numbers in template literals\<close>

definition digit_char :: "nat \<Rightarrow> char" where
  "digit_char d = char_of (48 + d)"

function string_of_nat :: "nat \<Rightarrow> string" where
  "string_of_nat n =
     (if n < 10 then [digit_char n] else string_of_nat (n div 10) @ [digit_char (n mod 10)])"
  by pat_completeness auto
termination
  by (relation "measure (\<lambda>n. n)") auto

declare string_of_nat.simps [simp del]

definition string_of_int :: "int \<Rightarrow> string" where
  "string_of_int k = (if k < 0 then ''-'' @ string_of_nat (nat (- k)) else string_of_nat (nat k))"

section \<open>The layout compiler\<close>

text \<open>
  \<^verbatim>\<open>generateScript(config)\<close>. The variable \<^verbatim>\<open>script\<close> is a string that the function
  extends with \<^verbatim>\<open>+=\<close>; the \<^verbatim>\<open>for\<close> loop over the indices \<open>1 .. panes.length - 1\<close> is
  \<open>split_loop\<close>, and the two \<^verbatim>\<open>panes.forEach((pane, i) => ...)\<close> calls are \<open>forEach\<close>
  with the callbacks \<open>resize_callback\<close> and \<open>command_callback\<close>.
\<close>

definition script_header :: "config \<Rightarrow> string" where
  \<open>script_header c =
     ''#!/bin/bash\<newline>SESSION="'' @ name c @ ''"\<newline>BASE_DIR='' @ baseDir c @
     ''\<newline>\<newline>tmux has-session -t $SESSION 2>/dev/null && tmux attach -t $SESSION && exit\<newline>'' @
     ''\<newline>tmux new-session -d -s $SESSION -c $BASE_DIR\<newline>''\<close>

definition script_footer :: string where
  "script_footer = ''\<newline>\<newline>tmux select-pane -t 0\<newline>tmux attach -t $SESSION\<newline>''"

function split_loop :: "nat \<Rightarrow> pane list \<Rightarrow> string \<Rightarrow> string" where
  "split_loop i ps script =
     (if i < length ps then
        (let pane = ps ! i;
             dir = or_default (directory pane) ''$BASE_DIR''
         in if split pane = Some ''horizontal''
            then split_loop (i + 1) ps (script @ ''\<newline>tmux split-window -h -c '' @ dir)
            else split_loop (i + 1) ps (script @ ''\<newline>tmux split-window -v -c '' @ dir))
      else script)"
  by pat_completeness auto
termination
  by (relation "measure (\<lambda>(i, ps, script). length ps - i)") auto

declare split_loop.simps [simp del]

fun forEach :: "('a \<Rightarrow> nat \<Rightarrow> 's \<Rightarrow> 's) \<Rightarrow> 'a list \<Rightarrow> nat \<Rightarrow> 's \<Rightarrow> 's" where
  "forEach f [] i s = s"
| "forEach f (x # xs) i s = forEach f xs (Suc i) (f x i s)"

definition resize_callback :: "pane \<Rightarrow> nat \<Rightarrow> string \<Rightarrow> string" where
  "resize_callback pane i script =
     (case resize pane of
        None \<Rightarrow> script
      | Some r \<Rightarrow>
          (let script = script @ ''\<newline>\<newline>tmux select-pane -t '' @ string_of_nat i
           in if type r = ''width''
              then script @ ''\<newline>tmux resize-pane -x '' @ string_of_int (value r)
              else if type r = ''height''
              then script @ ''\<newline>tmux resize-pane -y '' @ string_of_int (value r)
              else script))"

definition command_callback :: "pane \<Rightarrow> nat \<Rightarrow> string \<Rightarrow> string" where
  "command_callback pane i script =
     (if truthy (command pane)
      then script @ ''\<newline>tmux send-keys -t '' @ string_of_nat i @ '' '' @
           [CHR 0x27] @ the (command pane) @ [CHR 0x27] @ '' C-m''
      else script)"

definition generateScript :: "config \<Rightarrow> string" where
  "generateScript c =
     (let script = script_header c;
          script = split_loop 1 (panes c) script;
          script = forEach resize_callback (panes c) 0 script;
          script = forEach command_callback (panes c) 0 script
      in script @ script_footer)"

subsection \<open>The commands of a script\<close>

text \<open>
  Every \<^verbatim>\<open>script += ...\<close> between the header and the footer appends one tmux command.
  \<open>render\<close> gives the text that the statement appends for a command, and
  \<open>script_commands\<close> lists the commands of a layout in the three phases of the compiler.
\<close>

datatype orientation = Horizontal | Vertical

datatype dimension = Width | Height

datatype tmux_command =
    Split_Window orientation string
  | Select_Pane nat
  | Resize_Pane dimension int
  | Send_Keys nat string

fun render :: "tmux_command \<Rightarrow> string" where
  "render (Split_Window Horizontal dir) = ''\<newline>tmux split-window -h -c '' @ dir"
| "render (Split_Window Vertical dir) = ''\<newline>tmux split-window -v -c '' @ dir"
| "render (Select_Pane i) = ''\<newline>\<newline>tmux select-pane -t '' @ string_of_nat i"
| "render (Resize_Pane Width v) = ''\<newline>tmux resize-pane -x '' @ string_of_int v"
| "render (Resize_Pane Height v) = ''\<newline>tmux resize-pane -y '' @ string_of_int v"
| "render (Send_Keys i cmd) =
     ''\<newline>tmux send-keys -t '' @ string_of_nat i @ '' '' @ [CHR 0x27] @ cmd @ [CHR 0x27] @ '' C-m''"

definition split_command :: "pane \<Rightarrow> tmux_command" where
  "split_command p =
     Split_Window (if split p = Some ''horizontal'' then Horizontal else Vertical)
       (or_default (directory p) ''$BASE_DIR'')"

definition resize_commands :: "nat \<times> pane \<Rightarrow> tmux_command list" where
  "resize_commands ip =
     (case resize (snd ip) of
        None \<Rightarrow> []
      | Some r \<Rightarrow>
          Select_Pane (fst ip) #
          (if type r = ''width'' then [Resize_Pane Width (value r)]
           else if type r = ''height'' then [Resize_Pane Height (value r)]
           else []))"

definition send_commands :: "nat \<times> pane \<Rightarrow> tmux_command list" where
  "send_commands ip =
     (if truthy (command (snd ip)) then [Send_Keys (fst ip) (the (command (snd ip)))] else [])"

definition split_phase :: "config \<Rightarrow> tmux_command list" where
  "split_phase c = map split_command (tl (panes c))"

definition resize_phase :: "config \<Rightarrow> tmux_command list" where
  "resize_phase c = concat (map resize_commands (enumerate 0 (panes c)))"

definition command_phase :: "config \<Rightarrow> tmux_command list" where
  "command_phase c = concat (map send_commands (enumerate 0 (panes c)))"

definition script_commands :: "config \<Rightarrow> tmux_command list" where
  "script_commands c = split_phase c @ resize_phase c @ command_phase c"

definition render_all :: "tmux_command list \<Rightarrow> string" where
  "render_all cmds = concat (map render cmds)"

subsection \<open>Counting the commands of a script\<close>

text \<open>
  A resize pair is a select-pane command directly followed by a resize-pane command, as
  the resize callback appends them.
\<close>

fun is_split_window :: "tmux_command \<Rightarrow> bool" where
  "is_split_window (Split_Window ori dir) = True"
| "is_split_window c = False"

fun is_send_keys :: "tmux_command \<Rightarrow> bool" where
  "is_send_keys (Send_Keys i cmd) = True"
| "is_send_keys c = False"

fun count_resize_pairs :: "tmux_command list \<Rightarrow> nat" where
  "count_resize_pairs (Select_Pane i # Resize_Pane d v # rest) = Suc (count_resize_pairs rest)"
| "count_resize_pairs (c # rest) = count_resize_pairs rest"
| "count_resize_pairs [] = 0"

text \<open>
  The resize types of the data model: every resize of the layout is by width or by height.
\<close>

definition resize_types_known :: "config \<Rightarrow> bool" where
  "resize_types_known c =
     (\<forall>p \<in> set (panes c). \<forall>r. resize p = Some r \<longrightarrow> type r = ''width'' \<or> type r = ''height'')"

text \<open>
  The split command of a pane in the words of the specification: the orientation follows
  the pane's \<open>split\<close> value, the directory is the pane's own when set and the
  base-directory variable otherwise.
\<close>

definition spec_target_directory :: "pane \<Rightarrow> string" where
  "spec_target_directory p =
     (case directory p of
        None \<Rightarrow> ''$BASE_DIR''
      | Some d \<Rightarrow> if d = [] then ''$BASE_DIR'' else d)"

definition spec_split_line :: "pane \<Rightarrow> string option" where
  "spec_split_line p =
     (if split p = Some ''horizontal''
      then Some (''\<newline>tmux split-window -h -c '' @ spec_target_directory p)
      else if split p = Some ''vertical''
      then Some (''\<newline>tmux split-window -v -c '' @ spec_target_directory p)
      else None)"

subsection \<open>The lines of a script\<close>

text \<open>\<^verbatim>\<open>script.split('\n')\<close>: the lines of a text.\<close>

fun lines_of :: "string \<Rightarrow> string list" where
  "lines_of [] = [[]]"
| "lines_of (c # cs) =
     (if c = CHR ''\<newline>'' then [] # lines_of cs
      else (case lines_of cs of [] \<Rightarrow> [[c]] | l # ls \<Rightarrow> (c # l) # ls))"

text \<open>\<^verbatim>\<open>line.startsWith(prefix)\<close>.\<close>

fun startsWith :: "string \<Rightarrow> string \<Rightarrow> bool" where
  "startsWith s [] = True"
| "startsWith [] (p # ps) = False"
| "startsWith (c # cs) (p # ps) = (c = p \<and> startsWith cs ps)"

definition single_line :: "string \<Rightarrow> bool" where
  "single_line s = (CHR ''\<newline>'' \<notin> set s)"

text \<open>The strings of a layout that reach the script hold no line break.\<close>

definition single_line_pane :: "pane \<Rightarrow> bool" where
  "single_line_pane p =
     (single_line (or_default (directory p) []) \<and> single_line (or_default (command p) []))"

definition single_lines :: "config \<Rightarrow> bool" where
  "single_lines c =
     (single_line (name c) \<and> single_line (baseDir c) \<and> list_all single_line_pane (panes c))"

fun count_line_pairs :: "string list \<Rightarrow> nat" where
  "count_line_pairs (l # m # rest) =
     (if startsWith l ''tmux select-pane'' \<and> startsWith m ''tmux resize-pane''
      then Suc (count_line_pairs rest) else count_line_pairs (m # rest))"
| "count_line_pairs ls = 0"

text \<open>The lines that a command adds to the script.\<close>

fun command_lines :: "tmux_command \<Rightarrow> string list" where
  "command_lines (Split_Window Horizontal dir) = [''tmux split-window -h -c '' @ dir]"
| "command_lines (Split_Window Vertical dir) = [''tmux split-window -v -c '' @ dir]"
| "command_lines (Select_Pane i) = [[], ''tmux select-pane -t '' @ string_of_nat i]"
| "command_lines (Resize_Pane Width v) = [''tmux resize-pane -x '' @ string_of_int v]"
| "command_lines (Resize_Pane Height v) = [''tmux resize-pane -y '' @ string_of_int v]"
| "command_lines (Send_Keys i cmd) =
     [''tmux send-keys -t '' @ string_of_nat i @ '' '' @ [CHR 0x27] @ cmd @ [CHR 0x27] @ '' C-m'']"

fun single_line_command :: "tmux_command \<Rightarrow> bool" where
  "single_line_command (Split_Window ori dir) = single_line dir"
| "single_line_command (Send_Keys i cmd) = single_line cmd"
| "single_line_command c = True"

text \<open>The lines of the header and of the footer.\<close>

definition header_lines :: "config \<Rightarrow> string list" where
  \<open>header_lines c =
     [''#!/bin/bash'', ''SESSION="'' @ name c @ ''"'', ''BASE_DIR='' @ baseDir c, [],
      ''tmux has-session -t $SESSION 2>/dev/null && tmux attach -t $SESSION && exit'', [],
      ''tmux new-session -d -s $SESSION -c $BASE_DIR'', []]\<close>

definition footer_lines :: "string list" where
  "footer_lines = [[], ''tmux select-pane -t 0'', ''tmux attach -t $SESSION'', []]"

subsection \<open>A layout and its script\<close>

text \<open>A layout with three panes, one resize and two commands.\<close>

definition dev_layout :: config where
  "dev_layout =
     \<lparr>name = ''dev'', baseDir = ''/proj'',
      panes =
        [\<lparr>split = None, directory = None, command = Some ''npm run dev'', resize = None\<rparr>,
         \<lparr>split = Some ''vertical'', directory = None, command = Some ''npm test'',
          resize = Some \<lparr>type = ''height'', value = 12\<rparr>\<rparr>,
         \<lparr>split = Some ''horizontal'', directory = Some ''/proj/logs'', command = Some '''',
          resize = None\<rparr>]\<rparr>"

text \<open>The script of that layout, byte for byte.\<close>

definition dev_script :: string where
  \<open>dev_script =
     ''#!/bin/bash\<newline>SESSION="dev"\<newline>BASE_DIR=/proj\<newline>'' @
     ''\<newline>tmux has-session -t $SESSION 2>/dev/null && tmux attach -t $SESSION && exit\<newline>'' @
     ''\<newline>tmux new-session -d -s $SESSION -c $BASE_DIR\<newline>'' @
     ''\<newline>tmux split-window -v -c $BASE_DIR'' @
     ''\<newline>tmux split-window -h -c /proj/logs'' @
     ''\<newline>\<newline>tmux select-pane -t 1'' @
     ''\<newline>tmux resize-pane -y 12'' @
     ''\<newline>tmux send-keys -t 0 '' @ [CHR 0x27] @ ''npm run dev'' @ [CHR 0x27] @ '' C-m'' @
     ''\<newline>tmux send-keys -t 1 '' @ [CHR 0x27] @ ''npm test'' @ [CHR 0x27] @ '' C-m'' @
     ''\<newline>\<newline>tmux select-pane -t 0\<newline>tmux attach -t $SESSION\<newline>''\<close>

section \<open>Storage\<close>

text \<open>
  The two directories \<^verbatim>\<open>SCRIPT_DIR\<close> and \<^verbatim>\<open>CONFIG_DIR\<close>. A directory is the list of its
  entries, file name and content, in the order \<^verbatim>\<open>readdir\<close> reports them; \<open>None\<close> is a
  directory that does not exist. A file is identified by the name the program builds for
  it (\<^verbatim>\<open>`${name}.sh`\<close>, \<^verbatim>\<open>`${name}.json`\<close>), so the model covers workspace names that are
  plain file names: for a name with a \<^verbatim>\<open>/\<close> in it, \<^verbatim>\<open>path.join\<close> resolves to a file
  elsewhere, which the model does not follow. The only failure of a file operation is
  the absence of the file or of its directory.
\<close>

type_synonym directory = "(string \<times> string) list"

datatype io_error = ENOENT

record fs =
  script_dir :: "directory option"
  config_dir :: "directory option"

definition existsSync :: "directory option \<Rightarrow> string \<Rightarrow> bool" where
  "existsSync d f = (case d of None \<Rightarrow> False | Some es \<Rightarrow> map_of es f \<noteq> None)"

definition readdir :: "directory option \<Rightarrow> io_error + string list" where
  "readdir d = (case d of None \<Rightarrow> Inl ENOENT | Some es \<Rightarrow> Inr (map fst es))"

definition readFile :: "directory option \<Rightarrow> string \<Rightarrow> io_error + string" where
  "readFile d f =
     (case d of
        None \<Rightarrow> Inl ENOENT
      | Some es \<Rightarrow> (case map_of es f of None \<Rightarrow> Inl ENOENT | Some content \<Rightarrow> Inr content))"

definition writeFile :: "directory option \<Rightarrow> string \<Rightarrow> string \<Rightarrow> io_error + directory" where
  "writeFile d f content =
     (case d of None \<Rightarrow> Inl ENOENT | Some es \<Rightarrow> Inr (AList.update f content es))"

definition unlink :: "directory option \<Rightarrow> string \<Rightarrow> io_error + directory" where
  "unlink d f =
     (case d of
        None \<Rightarrow> Inl ENOENT
      | Some es \<Rightarrow> (case map_of es f of None \<Rightarrow> Inl ENOENT | Some _ \<Rightarrow> Inr (AList.delete f es)))"

text \<open>\<^verbatim>\<open>rename(old, new)\<close> inside one directory: the old file must exist, a file at the
  new name is replaced, and renaming a file to itself changes nothing.\<close>

definition rename :: "directory option \<Rightarrow> string \<Rightarrow> string \<Rightarrow> io_error + directory" where
  "rename d old new =
     (case d of
        None \<Rightarrow> Inl ENOENT
      | Some es \<Rightarrow>
          (case map_of es old of
             None \<Rightarrow> Inl ENOENT
           | Some content \<Rightarrow>
               if old = new then Inr es
               else Inr (AList.update new content (AList.delete old es))))"

subsection \<open>JSON\<close>

text \<open>
  \<^verbatim>\<open>JSON.stringify\<close> and \<^verbatim>\<open>JSON.parse\<close> belong to the runtime, not to the program: the
  model takes them as a parameter. \<open>parse\<close> either throws, or gives a falsy value
  (\<^verbatim>\<open>null\<close>, \<^verbatim>\<open>false\<close>, \<^verbatim>\<open>0\<close>, \<^verbatim>\<open>""\<close>), or gives a truthy value.

  Of a truthy value the program reads the members of a descriptor. It is either a layout,
  or a value without panes, whose member \<^verbatim>\<open>panes\<close> is \<^verbatim>\<open>undefined\<close> or \<^verbatim>\<open>null\<close>: an object
  such as \<^verbatim>\<open>{}\<close> or an array such as \<^verbatim>\<open>[]\<close>, whose members can be set
  (\<open>Without_Panes True\<close>), or a number, a string or \<^verbatim>\<open>true\<close>, on which setting a member
  throws a \<^verbatim>\<open>TypeError\<close>, the program being a module (\<open>Without_Panes False\<close>). Reading
  \<^verbatim>\<open>panes.length\<close> of a value without panes throws a \<^verbatim>\<open>TypeError\<close>. The members of a
  layout have the types of the descriptors that the program writes; an object whose
  \<^verbatim>\<open>panes\<close> is a value of another type, of which \<^verbatim>\<open>length\<close> can be read, is outside the
  model.
\<close>

datatype loaded = Layout config | Without_Panes bool

datatype parsed = Syntax_Error | Falsy | Truthy loaded

record json =
  stringify :: "config \<Rightarrow> string"
  parse :: "string \<Rightarrow> parsed"

subsection \<open>Helpers of the program\<close>

definition endsWith :: "string \<Rightarrow> string \<Rightarrow> bool" where
  "endsWith s suffix =
     (length suffix \<le> length s \<and> drop (length s - length suffix) s = suffix)"

text \<open>\<^verbatim>\<open>s.replace(pattern, replacement)\<close> with a string pattern: the first occurrence only.\<close>

fun replace :: "string \<Rightarrow> string \<Rightarrow> string \<Rightarrow> string" where
  "replace [] pattern replacement = (if pattern = [] then replacement else [])"
| "replace (c # cs) pattern replacement =
     (if take (length pattern) (c # cs) = pattern
      then replacement @ drop (length pattern) (c # cs)
      else c # replace cs pattern replacement)"

text \<open>\<^verbatim>\<open>s.includes(pattern)\<close>.\<close>

fun includes_str :: "string \<Rightarrow> string \<Rightarrow> bool" where
  "includes_str [] pattern = (pattern = [])"
| "includes_str (c # cs) pattern = (take (length pattern) (c # cs) = pattern \<or> includes_str cs pattern)"

definition getWorkspaces :: "fs \<Rightarrow> string list" where
  "getWorkspaces s =
     (case readdir (script_dir s) of
        Inl e \<Rightarrow> []
      | Inr files \<Rightarrow> map (\<lambda>f. replace f ''.sh'' []) (filter (\<lambda>f. endsWith f ''.sh'') files))"

definition saveConfig :: "json \<Rightarrow> fs \<Rightarrow> string \<Rightarrow> config \<Rightarrow> io_error + fs" where
  "saveConfig J s nm c =
     (case (if \<not> (config_dir s \<noteq> None)
            then (case writeFile (config_dir s) ''.gitkeep'' [] of
                    Inl e \<Rightarrow> Inl e
                  | Inr d \<Rightarrow> Inr (s\<lparr>config_dir := Some d\<rparr>))
            else Inr s) of
        Inl e \<Rightarrow> Inl e
      | Inr s1 \<Rightarrow>
          (case writeFile (config_dir s1) (nm @ ''.json'') (stringify J c) of
             Inl e \<Rightarrow> Inl e
           | Inr d \<Rightarrow> Inr (s1\<lparr>config_dir := Some d\<rparr>)))"

text \<open>
  \<^verbatim>\<open>loadConfig\<close> gives \<^verbatim>\<open>null\<close> when reading or parsing throws. A falsy parse result is
  returned as it is; every caller only tests the result for truthiness, so it is \<open>None\<close>
  here as well. A truthy parse result is returned as it is, whatever its shape.
\<close>

definition loadConfig :: "json \<Rightarrow> fs \<Rightarrow> string \<Rightarrow> loaded option" where
  "loadConfig J s nm =
     (case readFile (config_dir s) (nm @ ''.json'') of
        Inl e \<Rightarrow> None
      | Inr content \<Rightarrow>
          (case parse J content of
             Syntax_Error \<Rightarrow> None
           | Falsy \<Rightarrow> None
           | Truthy v \<Rightarrow> Some v))"

text \<open>The descriptor of a workspace is absent or its text does not parse.\<close>

definition descriptor_unusable :: "json \<Rightarrow> fs \<Rightarrow> string \<Rightarrow> bool" where
  "descriptor_unusable J s w =
     (case readFile (config_dir s) (w @ ''.json'') of
        Inl e \<Rightarrow> True
      | Inr text \<Rightarrow> parse J text = Syntax_Error)"

section \<open>The editor flows\<close>

text \<open>
  Both \<^verbatim>\<open>create\<close> and \<^verbatim>\<open>edit\<close> run a menu loop over a descriptor in memory. One pass
  of the loop is a transition: the menu entry the user picks together with the answers
  to the prompts that the entry asks. A list prompt returns one of the choices it was
  given, so the choices on offer in a state are part of the model (\<open>create_offered\<close>,
  \<open>edit_offered\<close>).
\<close>

fun orientation_text :: "orientation \<Rightarrow> string" where
  "orientation_text Horizontal = ''horizontal''"
| "orientation_text Vertical = ''vertical''"

fun dimension_text :: "dimension \<Rightarrow> string" where
  "dimension_text Width = ''width''"
| "dimension_text Height = ''height''"

text \<open>
  The answers while one pane is edited. The split prompt offers horizontal, vertical and
  cancel (\<open>None\<close>). The resize question is asked differently in the two flows (create:
  enable, disable or cancel, then the type; edit: width, height, disable or cancel), and
  every answer to it sets a size, removes the size or leaves the pane as it is.
\<close>

datatype resize_answer = Resize_To dimension int | Resize_Disable | Resize_Cancel

datatype field_answer =
    Set_Split "orientation option"
  | Set_Directory string
  | Set_Command string
  | Set_Resize resize_answer

fun field_value :: "field_answer \<Rightarrow> string" where
  "field_value (Set_Split a) = ''split''"
| "field_value (Set_Directory d) = ''directory''"
| "field_value (Set_Command cmd) = ''command''"
| "field_value (Set_Resize a) = ''resize''"

definition fieldChoices :: "nat \<Rightarrow> string list" where
  "fieldChoices paneIndex =
     (if paneIndex = 0 then [''command'', ''resize'', ''done'']
      else [''split'', ''directory'', ''command'', ''resize'', ''done''])"

fun edit_field :: "field_answer \<Rightarrow> pane \<Rightarrow> pane" where
  "edit_field (Set_Split None) p = p"
| "edit_field (Set_Split (Some ori)) p = p\<lparr>split := Some (orientation_text ori)\<rparr>"
| "edit_field (Set_Directory d) p = p\<lparr>directory := (if d = [] then None else Some d)\<rparr>"
| "edit_field (Set_Command cmd) p = p\<lparr>command := Some cmd\<rparr>"
| "edit_field (Set_Resize (Resize_To t v)) p =
     p\<lparr>resize := Some \<lparr>type = dimension_text t, value = v\<rparr>\<rparr>"
| "edit_field (Set_Resize Resize_Disable) p = p\<lparr>resize := None\<rparr>"
| "edit_field (Set_Resize Resize_Cancel) p = p"

text \<open>The inner loop over one pane: the fields picked until the user picks done.\<close>

definition edit_pane :: "field_answer list \<Rightarrow> pane \<Rightarrow> pane" where
  "edit_pane answers p = fold edit_field answers p"

text \<open>The answers of add pane: the split prompt (or cancel), directory, command, and
  the size questions.\<close>

datatype add_resize = No_Custom_Size | Size_Skipped | Custom_Size dimension int

datatype add_pane_answers = Add_Cancelled | Add_Answers orientation string string add_resize

definition new_pane :: "orientation \<Rightarrow> string \<Rightarrow> string \<Rightarrow> add_resize \<Rightarrow> pane" where
  "new_pane ori d cmd rs =
     \<lparr>split = Some (orientation_text ori),
      directory = (if d = [] then None else Some d),
      command = Some cmd,
      resize = (case rs of
                  Custom_Size t v \<Rightarrow> Some \<lparr>type = dimension_text t, value = v\<rparr>
                | _ \<Rightarrow> None)\<rparr>"

subsection \<open>The create flow\<close>

datatype create_action =
    CEdit_Name string
  | CEdit_Basedir string
  | CEdit_Pane nat "field_answer list"
  | CAdd_Pane add_pane_answers
  | CRemove_Last_Pane
  | CCreate
  | CCancel

datatype create_outcome = Creating config | Create_Confirmed config | Create_Cancelled | Create_Crashed

definition initial_config :: "string \<Rightarrow> config" where
  "initial_config cwd =
     \<lparr>name = [], baseDir = cwd,
      panes = [\<lparr>split = None, directory = None, command = Some [], resize = None\<rparr>]\<rparr>"

text \<open>The menu of the create flow: which entries \<^verbatim>\<open>choices\<close> holds in a state, and
  which answers the prompts of an entry accept.\<close>

fun create_offered :: "config \<Rightarrow> create_action \<Rightarrow> bool" where
  "create_offered c (CEdit_Name n) = (n \<noteq> [])"
| "create_offered c (CEdit_Basedir d) = True"
| "create_offered c (CEdit_Pane i answers) =
     (i < length (panes c) \<and> list_all (\<lambda>a. field_value a \<in> set (fieldChoices i)) answers)"
| "create_offered c (CAdd_Pane a) = True"
| "create_offered c CRemove_Last_Pane = (length (panes c) > 1)"
| "create_offered c CCreate = (name c \<noteq> [])"
| "create_offered c CCancel = True"

fun create_step :: "config \<Rightarrow> create_action \<Rightarrow> create_outcome" where
  "create_step c (CEdit_Name n) = Creating (c\<lparr>name := n\<rparr>)"
| "create_step c (CEdit_Basedir d) = Creating (c\<lparr>baseDir := d\<rparr>)"
| "create_step c (CEdit_Pane i answers) =
     (if i < length (panes c)
      then Creating (c\<lparr>panes := (panes c)[i := edit_pane answers (panes c ! i)]\<rparr>)
      else Create_Crashed)"
| "create_step c (CAdd_Pane Add_Cancelled) = Creating c"
| "create_step c (CAdd_Pane (Add_Answers ori d cmd rs)) =
     Creating (c\<lparr>panes := panes c @ [new_pane ori d cmd rs]\<rparr>)"
| "create_step c CRemove_Last_Pane = Creating (c\<lparr>panes := butlast (panes c)\<rparr>)"
| "create_step c CCreate = Create_Confirmed c"
| "create_step c CCancel = Create_Cancelled"

text \<open>The answers given to prompts of type \<^verbatim>\<open>confirm\<close> during a transition.\<close>

fun create_confirmations :: "create_action \<Rightarrow> bool list" where
  "create_confirmations (CAdd_Pane (Add_Answers ori d cmd rs)) = [rs \<noteq> No_Custom_Size]"
| "create_confirmations a = []"

fun create_loop :: "config \<Rightarrow> create_action list \<Rightarrow> create_outcome" where
  "create_loop c [] = Creating c"
| "create_loop c (a # as) =
     (case create_step c a of Creating c' \<Rightarrow> create_loop c' as | out \<Rightarrow> out)"

subsection \<open>The edit flow\<close>

datatype edit_action =
    EBase_Directory string
  | EAdd_Pane add_pane_answers
  | EEdit_Pane "nat option" "field_answer list"
  | ERemove_Pane "nat option" bool
  | EEdit_Script "string option"
  | ESave_And_Exit
  | ECancel bool

datatype edit_outcome =
    Editing config
  | Edit_Saved config
  | Edit_Script_Opened "string option"
  | Edit_Discarded
  | Edit_Crashed

fun edit_offered :: "config \<Rightarrow> edit_action \<Rightarrow> bool" where
  "edit_offered c (EEdit_Pane (Some i) answers) =
     (i < length (panes c) \<and> list_all (\<lambda>a. field_value a \<in> set (fieldChoices i)) answers)"
| "edit_offered c (ERemove_Pane (Some i) sure) = (0 < i \<and> i < length (panes c))"
| "edit_offered c a = True"

text \<open>\<^verbatim>\<open>panes.splice(i, 1)\<close>.\<close>

definition splice1 :: "nat \<Rightarrow> 'a list \<Rightarrow> 'a list" where
  "splice1 i xs = take i xs @ drop (Suc i) xs"

fun edit_step :: "config \<Rightarrow> edit_action \<Rightarrow> edit_outcome" where
  "edit_step c (ECancel sure) = (if sure then Edit_Discarded else Editing c)"
| "edit_step c ESave_And_Exit = Edit_Saved c"
| "edit_step c (EEdit_Script r) = Edit_Script_Opened r"
| "edit_step c (EBase_Directory d) = Editing (c\<lparr>baseDir := d\<rparr>)"
| "edit_step c (EAdd_Pane Add_Cancelled) = Editing c"
| "edit_step c (EAdd_Pane (Add_Answers ori d cmd rs)) =
     Editing (c\<lparr>panes := panes c @ [new_pane ori d cmd rs]\<rparr>)"
| "edit_step c (EEdit_Pane None answers) = Editing c"
| "edit_step c (EEdit_Pane (Some i) answers) =
     (if i < length (panes c)
      then Editing (c\<lparr>panes := (panes c)[i := edit_pane answers (panes c ! i)]\<rparr>)
      else Edit_Crashed)"
| "edit_step c (ERemove_Pane sel sure) =
     (if length (panes c) = 1 then Editing c
      else case sel of
             None \<Rightarrow> Editing c
           | Some i \<Rightarrow> if sure then Editing (c\<lparr>panes := splice1 i (panes c)\<rparr>) else Editing c)"

fun edit_confirmations :: "config \<Rightarrow> edit_action \<Rightarrow> bool list" where
  "edit_confirmations c (ECancel sure) = [sure]"
| "edit_confirmations c (EAdd_Pane (Add_Answers ori d cmd rs)) = [rs \<noteq> No_Custom_Size]"
| "edit_confirmations c (ERemove_Pane (Some i) sure) =
     (if length (panes c) = 1 then [] else [sure])"
| "edit_confirmations c a = []"

fun edit_loop :: "config \<Rightarrow> edit_action list \<Rightarrow> edit_outcome" where
  "edit_loop c [] = Editing c"
| "edit_loop c (a # as) =
     (case edit_step c a of Editing c' \<Rightarrow> edit_loop c' as | out \<Rightarrow> out)"

text \<open>
  The menu of \<^verbatim>\<open>edit\<close> on a loaded value without panes. \<^verbatim>\<open>Save and exit\<close> throws in
  \<^verbatim>\<open>generateScript\<close>, at \<^verbatim>\<open>panes.length\<close>, before any file is written; \<^verbatim>\<open>Add pane\<close>,
  \<^verbatim>\<open>Edit pane\<close> and \<^verbatim>\<open>Remove pane\<close> throw at \<^verbatim>\<open>config.panes.length\<close> and
  \<^verbatim>\<open>config.panes.map\<close> before they ask anything; \<^verbatim>\<open>Base directory\<close> sets a member of the
  value. \<open>None\<close> is a menu that is still open.
\<close>

fun edit_loop_without_panes :: "bool \<Rightarrow> edit_action list \<Rightarrow> edit_outcome option" where
  "edit_loop_without_panes obj [] = None"
| "edit_loop_without_panes obj (ECancel sure # as) =
     (if sure then Some Edit_Discarded else edit_loop_without_panes obj as)"
| "edit_loop_without_panes obj (ESave_And_Exit # as) = Some Edit_Crashed"
| "edit_loop_without_panes obj (EEdit_Script r # as) = Some (Edit_Script_Opened r)"
| "edit_loop_without_panes obj (EBase_Directory d # as) =
     (if obj then edit_loop_without_panes obj as else Some Edit_Crashed)"
| "edit_loop_without_panes obj (EAdd_Pane answers # as) = Some Edit_Crashed"
| "edit_loop_without_panes obj (EEdit_Pane sel answers # as) = Some Edit_Crashed"
| "edit_loop_without_panes obj (ERemove_Pane sel sure # as) = Some Edit_Crashed"

section \<open>The commands\<close>

text \<open>
  What a command leaves behind: the files, the exit code of the process, what it printed
  and the script it handed to \<^verbatim>\<open>bash\<close>. An exception that no handler catches ends the
  process with exit code 1. An interaction that ends while a menu is still open is the
  user's interrupt: the \<^verbatim>\<open>SIGINT\<close> handler prints the cancellation and exits with 0.
\<close>

text \<open>What the \<^verbatim>\<open>catch\<close> of \<^verbatim>\<open>rename\<close> can receive.\<close>

datatype thrown = Io io_error | Type_Error

datatype message =
    Created string
  | Updated string
  | Not_Found string
  | Already_Exists string
  | No_Workspaces
  | Cancelled
  | Deleted string
  | Failed_To_Delete io_error
  | Renamed
  | Failed_To_Rename thrown
  | Workspaces "(string \<times> (nat \<times> string) option) list"
  | Loading string
  | Editor_Closed
  | Editor_Failed
  | Uncaught

record result =
  files :: fs
  exit_code :: nat
  printed :: "message list"
  spawned :: "string option"

definition report :: "fs \<Rightarrow> nat \<Rightarrow> message list \<Rightarrow> result" where
  "report s code msgs = \<lparr>files = s, exit_code = code, printed = msgs, spawned = None\<rparr>"

text \<open>The end of \<^verbatim>\<open>create\<close> and the save of \<^verbatim>\<open>edit\<close>: compile, write the script, save
  the descriptor. Neither is inside a \<^verbatim>\<open>try\<close>.\<close>

definition write_workspace :: "json \<Rightarrow> fs \<Rightarrow> string \<Rightarrow> config \<Rightarrow> message \<Rightarrow> result" where
  "write_workspace J s nm c done =
     (case writeFile (script_dir s) (nm @ ''.sh'') (generateScript c) of
        Inl e \<Rightarrow> report s 1 [Uncaught]
      | Inr d \<Rightarrow>
          (case saveConfig J (s\<lparr>script_dir := Some d\<rparr>) nm c of
             Inl e \<Rightarrow> report (s\<lparr>script_dir := Some d\<rparr>) 1 [Uncaught]
           | Inr s' \<Rightarrow> report s' 0 [done]))"

definition create_command :: "json \<Rightarrow> fs \<Rightarrow> string \<Rightarrow> create_action list \<Rightarrow> result" where
  "create_command J s cwd actions =
     (case create_loop (initial_config cwd) actions of
        Creating c \<Rightarrow> report s 0 [Cancelled]
      | Create_Cancelled \<Rightarrow> report s 0 [Cancelled]
      | Create_Crashed \<Rightarrow> report s 1 [Uncaught]
      | Create_Confirmed c \<Rightarrow> write_workspace J s (name c) c (Created (name c)))"

definition load_command :: "fs \<Rightarrow> string \<Rightarrow> result" where
  "load_command s workspace =
     (if \<not> existsSync (script_dir s) (workspace @ ''.sh'')
      then report s 1 [Not_Found workspace]
      else \<lparr>files = s, exit_code = 0, printed = [], spawned = Some (workspace @ ''.sh'')\<rparr>)"

text \<open>
  \<^verbatim>\<open>list\<close>: one entry per name of \<^verbatim>\<open>getWorkspaces\<close>, with the pane count and the base
  directory when the descriptor loads. The entry of a name whose descriptor loads to a
  value without panes cannot be made: \<^verbatim>\<open>config.panes.length\<close> throws (\<open>None\<close>).
\<close>

definition list_entry :: "json \<Rightarrow> fs \<Rightarrow> string \<Rightarrow> (string \<times> (nat \<times> string) option) option" where
  "list_entry J s ws =
     (case loadConfig J s ws of
        None \<Rightarrow> Some (ws, None)
      | Some (Layout c) \<Rightarrow> Some (ws, Some (length (panes c), baseDir c))
      | Some (Without_Panes obj) \<Rightarrow> None)"

text \<open>
  The loop over the names, in both modes of \<^verbatim>\<open>list\<close>: \<open>Inr\<close> with all entries, or \<open>Inl\<close>
  with the entries made before the \<^verbatim>\<open>TypeError\<close>, which nothing catches.
\<close>

fun list_loop ::
  "json \<Rightarrow> fs \<Rightarrow> string list \<Rightarrow>
     (string \<times> (nat \<times> string) option) list + (string \<times> (nat \<times> string) option) list" where
  "list_loop J s [] = Inr []"
| "list_loop J s (ws # rest) =
     (case list_entry J s ws of
        None \<Rightarrow> Inl []
      | Some e \<Rightarrow>
          (case list_loop J s rest of
             Inl shown \<Rightarrow> Inl (e # shown)
           | Inr es \<Rightarrow> Inr (e # es)))"

definition list_entries ::
  "json \<Rightarrow> fs \<Rightarrow>
     (string \<times> (nat \<times> string) option) list + (string \<times> (nat \<times> string) option) list" where
  "list_entries J s = list_loop J s (getWorkspaces s)"

text \<open>
  \<open>interactive\<close> is the test \<^verbatim>\<open>options.interactive !== false\<close>. In interactive mode (the
  default) the entries are the choices of one prompt, shown when all of them are made:
  the user picks an entry or cancel (\<open>None\<close>), and a truthy pick is handed to \<^verbatim>\<open>bash\<close>. In
  plain mode each entry is printed as soon as it is made. The \<^verbatim>\<open>TypeError\<close> ends the
  process with exit code 1.
\<close>

definition list_command :: "json \<Rightarrow> fs \<Rightarrow> bool \<Rightarrow> string option \<Rightarrow> result" where
  "list_command J s interactive pick =
     (if getWorkspaces s = [] then report s 0 [No_Workspaces]
      else if interactive then
        (case list_entries J s of
           Inl shown \<Rightarrow> report s 1 [Uncaught]
         | Inr es \<Rightarrow>
             if truthy pick
             then \<lparr>files = s, exit_code = 0,
                   printed = [Workspaces es, Loading (the pick)],
                   spawned = Some (the pick @ ''.sh'')\<rparr>
             else report s 0 [Workspaces es, Cancelled])
      else
        (case list_entries J s of
           Inl shown \<Rightarrow> report s 1 [Workspaces shown, Uncaught]
         | Inr es \<Rightarrow> report s 0 [Workspaces es]))"

text \<open>How \<^verbatim>\<open>edit\<close> ends, by the outcome of its menu.\<close>

definition edit_end :: "json \<Rightarrow> fs \<Rightarrow> string \<Rightarrow> edit_outcome \<Rightarrow> result" where
  "edit_end J s workspace out =
     (case out of
        Editing c' \<Rightarrow> report s 0 [Cancelled]
      | Edit_Discarded \<Rightarrow> report s 0 []
      | Edit_Crashed \<Rightarrow> report s 1 [Uncaught]
      | Edit_Script_Opened None \<Rightarrow> report s 0 [Editor_Failed]
      | Edit_Script_Opened (Some text) \<Rightarrow>
          (case writeFile (script_dir s) (workspace @ ''.sh'') text of
             Inl e \<Rightarrow> report s 0 [Editor_Failed]
           | Inr d \<Rightarrow> report (s\<lparr>script_dir := Some d\<rparr>) 0 [Editor_Closed])
      | Edit_Saved c' \<Rightarrow> write_workspace J s workspace c' (Updated workspace))"

definition edit_command :: "json \<Rightarrow> fs \<Rightarrow> string \<Rightarrow> edit_action list \<Rightarrow> result" where
  "edit_command J s workspace actions =
     (case loadConfig J s workspace of
        None \<Rightarrow> report s 1 [Not_Found workspace]
      | Some (Layout c) \<Rightarrow> edit_end J s workspace (edit_loop c actions)
      | Some (Without_Panes obj) \<Rightarrow>
          (case edit_loop_without_panes obj actions of
             None \<Rightarrow> report s 0 [Cancelled]
           | Some out \<Rightarrow> edit_end J s workspace out))"

text \<open>
  \<^verbatim>\<open>rename [workspace] [newname]\<close>. A missing argument is asked for: the workspace from
  the list of \<^verbatim>\<open>getWorkspaces\<close>, the new name as text.
\<close>

record rename_answers =
  picked :: string
  typed :: string
  confirmed :: bool

text \<open>The \<^verbatim>\<open>try\<close> block of \<^verbatim>\<open>rename\<close> on a layout; its \<^verbatim>\<open>catch\<close> prints the failure.\<close>

definition rename_files :: "json \<Rightarrow> fs \<Rightarrow> string \<Rightarrow> string \<Rightarrow> config \<Rightarrow> result" where
  "rename_files J s workspace newname config0 =
     (let config = config0\<lparr>name := newname\<rparr>
      in case rename (script_dir s) (workspace @ ''.sh'') (newname @ ''.sh'') of
           Inl e \<Rightarrow> report s 0 [Failed_To_Rename (Io e)]
         | Inr sd \<Rightarrow>
             let s1 = s\<lparr>script_dir := Some sd\<rparr>;
                 s2 = (case rename (config_dir s1) (workspace @ ''.json'') (newname @ ''.json'') of
                         Inl e \<Rightarrow> s1
                       | Inr cd \<Rightarrow> s1\<lparr>config_dir := Some cd\<rparr>)
             in case writeFile (script_dir s2) (newname @ ''.sh'') (generateScript config) of
                  Inl e \<Rightarrow> report s2 0 [Failed_To_Rename (Io e)]
                | Inr sd' \<Rightarrow>
                    (case saveConfig J (s2\<lparr>script_dir := Some sd'\<rparr>) newname config of
                       Inl e \<Rightarrow> report (s2\<lparr>script_dir := Some sd'\<rparr>) 0 [Failed_To_Rename (Io e)]
                     | Inr s3 \<Rightarrow> report s3 0 [Renamed]))"

text \<open>
  The \<^verbatim>\<open>try\<close> block on a loaded value without panes. On a number, a string or \<^verbatim>\<open>true\<close>
  the assignment \<^verbatim>\<open>config.name = newname\<close> throws, before any file is touched. Otherwise
  the files are renamed and \<^verbatim>\<open>generateScript\<close> throws at \<^verbatim>\<open>panes.length\<close>: the script of
  the new name is the old one, and the descriptor is not rewritten.
\<close>

definition rename_files_without_panes :: "fs \<Rightarrow> string \<Rightarrow> string \<Rightarrow> bool \<Rightarrow> result" where
  "rename_files_without_panes s workspace newname obj =
     (if \<not> obj then report s 0 [Failed_To_Rename Type_Error]
      else case rename (script_dir s) (workspace @ ''.sh'') (newname @ ''.sh'') of
             Inl e \<Rightarrow> report s 0 [Failed_To_Rename (Io e)]
           | Inr sd \<Rightarrow>
               let s1 = s\<lparr>script_dir := Some sd\<rparr>;
                   s2 = (case rename (config_dir s1) (workspace @ ''.json'') (newname @ ''.json'') of
                           Inl e \<Rightarrow> s1
                         | Inr cd \<Rightarrow> s1\<lparr>config_dir := Some cd\<rparr>)
               in report s2 0 [Failed_To_Rename Type_Error])"

definition rename_command ::
  "json \<Rightarrow> fs \<Rightarrow> string option \<Rightarrow> string option \<Rightarrow> rename_answers \<Rightarrow> result" where
  "rename_command J s workspace_arg newname_arg answers =
     (if getWorkspaces s = [] then report s 0 [No_Workspaces]
      else
        let workspace = (if \<not> truthy workspace_arg then picked answers else the workspace_arg)
        in case loadConfig J s workspace of
             None \<Rightarrow> report s 1 [Not_Found workspace]
           | Some config \<Rightarrow>
               let newname = (if \<not> truthy newname_arg then typed answers else the newname_arg)
               in if existsSync (script_dir s) (newname @ ''.sh'')
                  then report s 1 [Already_Exists newname]
                  else if \<not> confirmed answers then report s 0 [Cancelled]
                  else (case config of
                          Layout c \<Rightarrow> rename_files J s workspace newname c
                        | Without_Panes obj \<Rightarrow>
                            rename_files_without_panes s workspace newname obj))"

definition delete_command :: "fs \<Rightarrow> string \<Rightarrow> bool \<Rightarrow> result" where
  "delete_command s workspace sure =
     (if \<not> sure then report s 0 [Cancelled]
      else case unlink (script_dir s) (workspace @ ''.sh'') of
             Inl e \<Rightarrow> report s 0 [Failed_To_Delete e]
           | Inr sd \<Rightarrow>
               let s1 = s\<lparr>script_dir := Some sd\<rparr>;
                   s2 = (case unlink (config_dir s1) (workspace @ ''.json'') of
                           Inl e \<Rightarrow> s1
                         | Inr cd \<Rightarrow> s1\<lparr>config_dir := Some cd\<rparr>)
               in report s2 0 [Deleted workspace])"

section \<open>Invariants of the editor flows\<close>

text \<open>Pane 0 exists and has no split value.\<close>

definition pane0_invariant :: "config \<Rightarrow> bool" where
  "pane0_invariant c = (panes c \<noteq> [] \<and> split (hd (panes c)) = None)"

text \<open>
  The layouts of the data model: pane 0 without split, every later pane with the split
  value horizontal or vertical, every resize by width or height.
\<close>

definition splits_known :: "config \<Rightarrow> bool" where
  "splits_known c =
     (\<forall>p \<in> set (tl (panes c)). split p = Some ''horizontal'' \<or> split p = Some ''vertical'')"

definition layout_ok :: "config \<Rightarrow> bool" where
  "layout_ok c = (pane0_invariant c \<and> splits_known c \<and> resize_types_known c)"

text \<open>The same for a single pane after pane 0, and the resize part of it.\<close>

definition pane_ok :: "pane \<Rightarrow> bool" where
  "pane_ok p =
     ((split p = Some ''horizontal'' \<or> split p = Some ''vertical'') \<and>
      (\<forall>r. resize p = Some r \<longrightarrow> type r = ''width'' \<or> type r = ''height''))"

definition resize_ok :: "pane \<Rightarrow> bool" where
  "resize_ok p = (\<forall>r. resize p = Some r \<longrightarrow> type r = ''width'' \<or> type r = ''height'')"

text \<open>A run of a menu loop in which every transition is one the menu offers.\<close>

fun create_run_offered :: "config \<Rightarrow> create_action list \<Rightarrow> bool" where
  "create_run_offered c [] = True"
| "create_run_offered c (a # as) =
     (create_offered c a \<and>
      (case create_step c a of Creating c' \<Rightarrow> create_run_offered c' as | out \<Rightarrow> True))"

fun edit_run_offered :: "config \<Rightarrow> edit_action list \<Rightarrow> bool" where
  "edit_run_offered c [] = True"
| "edit_run_offered c (a # as) =
     (edit_offered c a \<and>
      (case edit_step c a of Editing c' \<Rightarrow> edit_run_offered c' as | out \<Rightarrow> True))"

section \<open>Descriptors without panes\<close>

text \<open>No name of \<^verbatim>\<open>getWorkspaces\<close> has a descriptor that loads to a value without panes.\<close>

definition without_panes :: "loaded option \<Rightarrow> bool" where
  "without_panes v = (case v of Some (Without_Panes obj) \<Rightarrow> True | _ \<Rightarrow> False)"

definition panes_present :: "json \<Rightarrow> fs \<Rightarrow> bool" where
  "panes_present J s = list_all (\<lambda>ws. \<not> without_panes (loadConfig J s ws)) (getWorkspaces s)"

section \<open>Example data\<close>

text \<open>
  A stand-in for the runtime's JSON on a finite table of descriptors and their texts:
  \<open>stringify\<close> looks the descriptor up, \<open>parse\<close> looks the text up, takes \<^verbatim>\<open>null\<close> for
  falsy, \<^verbatim>\<open>{}\<close> and \<^verbatim>\<open>[]\<close> for an object without panes, \<^verbatim>\<open>1\<close> and \<^verbatim>\<open>true\<close> for a truthy
  value that is no object, and rejects every other text.
\<close>

definition table_json :: "(config \<times> string) list \<Rightarrow> json" where
  "table_json tbl =
     \<lparr>stringify = (\<lambda>c. case map_of tbl c of Some t \<Rightarrow> t | None \<Rightarrow> []),
      parse = (\<lambda>t. case map_of (map (\<lambda>(c, t). (t, c)) tbl) t of
                       Some c \<Rightarrow> Truthy (Layout c)
                     | None \<Rightarrow>
                         if t = ''null'' then Falsy
                         else if t = ''{}'' \<or> t = ''[]'' then Truthy (Without_Panes True)
                         else if t = ''1'' \<or> t = ''true'' then Truthy (Without_Panes False)
                         else Syntax_Error)\<rparr>"

definition dev_json :: string where
  \<open>dev_json =
     ''{\<newline>'' @
     ''  "name": "dev",\<newline>'' @
     ''  "baseDir": "/proj",\<newline>'' @
     ''  "panes": [\<newline>'' @
     ''    {\<newline>'' @
     ''      "command": "npm run dev"\<newline>'' @
     ''    },\<newline>'' @
     ''    {\<newline>'' @
     ''      "split": "vertical",\<newline>'' @
     ''      "directory": null,\<newline>'' @
     ''      "command": "npm test",\<newline>'' @
     ''      "resize": {\<newline>'' @
     ''        "type": "height",\<newline>'' @
     ''        "value": 12\<newline>'' @
     ''      }\<newline>'' @
     ''    },\<newline>'' @
     ''    {\<newline>'' @
     ''      "split": "horizontal",\<newline>'' @
     ''      "directory": "/proj/logs",\<newline>'' @
     ''      "command": "",\<newline>'' @
     ''      "resize": null\<newline>'' @
     ''    }\<newline>'' @
     ''  ]\<newline>'' @
     ''}''\<close>

definition work_json :: string where
  \<open>work_json =
     ''{\<newline>'' @
     ''  "name": "work",\<newline>'' @
     ''  "baseDir": "/proj",\<newline>'' @
     ''  "panes": [\<newline>'' @
     ''    {\<newline>'' @
     ''      "command": "npm run dev"\<newline>'' @
     ''    },\<newline>'' @
     ''    {\<newline>'' @
     ''      "split": "vertical",\<newline>'' @
     ''      "directory": null,\<newline>'' @
     ''      "command": "npm test",\<newline>'' @
     ''      "resize": {\<newline>'' @
     ''        "type": "height",\<newline>'' @
     ''        "value": 12\<newline>'' @
     ''      }\<newline>'' @
     ''    },\<newline>'' @
     ''    {\<newline>'' @
     ''      "split": "horizontal",\<newline>'' @
     ''      "directory": "/proj/logs",\<newline>'' @
     ''      "command": "",\<newline>'' @
     ''      "resize": null\<newline>'' @
     ''    }\<newline>'' @
     ''  ]\<newline>'' @
     ''}''\<close>

definition fresh_json :: string where
  \<open>fresh_json =
     ''{\<newline>'' @
     ''  "name": "dev",\<newline>'' @
     ''  "baseDir": "/tmp",\<newline>'' @
     ''  "panes": [\<newline>'' @
     ''    {\<newline>'' @
     ''      "command": ""\<newline>'' @
     ''    }\<newline>'' @
     ''  ]\<newline>'' @
     ''}''\<close>

definition fresh_layout :: config where
  "fresh_layout = (initial_config ''/tmp'')\<lparr>name := ''dev''\<rparr>"

definition example_json :: json where
  "example_json =
     table_json
       [(dev_layout, dev_json), (dev_layout\<lparr>name := ''work''\<rparr>, work_json),
        (fresh_layout, fresh_json)]"

text \<open>A storage holding the workspace dev, and an empty one.\<close>

definition dev_storage :: fs where
  "dev_storage =
     \<lparr>script_dir = Some [(''dev.sh'', dev_script)], config_dir = Some [(''dev.json'', dev_json)]\<rparr>"

definition empty_storage :: fs where
  "empty_storage = \<lparr>script_dir = Some [], config_dir = Some []\<rparr>"

text \<open>The keystrokes of \<^verbatim>\<open>tx create\<close> in \<^verbatim>\<open>/proj\<close> that build the layout dev.\<close>

definition dev_session :: "create_action list" where
  "dev_session =
     [CEdit_Name ''dev'',
      CEdit_Pane 0 [Set_Command ''npm run dev''],
      CAdd_Pane (Add_Answers Vertical [] ''npm test'' (Custom_Size Height 12)),
      CAdd_Pane (Add_Answers Horizontal ''/proj/logs'' [] No_Custom_Size)]"

text \<open>A storage that holds the script of the workspace my.shell and no descriptor.\<close>

definition dotted_storage :: fs where
  "dotted_storage = \<lparr>script_dir = Some [(''my.shell.sh'', dev_script)], config_dir = Some []\<rparr>"

text \<open>A storage whose descriptor of dev does not parse.\<close>

definition broken_storage :: fs where
  "broken_storage =
     \<lparr>script_dir = Some [(''dev.sh'', dev_script)],
      config_dir = Some [(''dev.json'', ''{ name: dev'')]\<rparr>"

text \<open>
  A storage that holds the scripts of the workspaces odd and dev: the descriptor of odd is
  the text \<^verbatim>\<open>{}\<close>, and dev has no descriptor.
\<close>

definition odd_storage :: fs where
  "odd_storage =
     \<lparr>script_dir = Some [(''odd.sh'', dev_script), (''dev.sh'', dev_script)],
      config_dir = Some [(''odd.json'', ''{}'')]\<rparr>"

section \<open>Properties of the compiler\<close>

lemma render_split_command:
  "render (split_command p) =
     (if split p = Some ''horizontal''
      then ''\<newline>tmux split-window -h -c '' @ or_default (directory p) ''$BASE_DIR''
      else ''\<newline>tmux split-window -v -c '' @ or_default (directory p) ''$BASE_DIR'')"
  by (simp add: split_command_def)

lemma split_loop_drop:
  "split_loop i ps script = script @ render_all (map split_command (drop i ps))"
proof (induction i ps script rule: split_loop.induct)
  case (1 i ps script)
  show ?case
  proof (cases "i < length ps")
    case True
    then have d: "drop i ps = ps ! i # drop (Suc i) ps"
      by (simp add: Cons_nth_drop_Suc)
    show ?thesis
    proof (cases "split (ps ! i) = Some ''horizontal''")
      case h: True
      have "split_loop i ps script =
            split_loop (i + 1) ps
              (script @ ''\<newline>tmux split-window -h -c '' @ or_default (directory (ps ! i)) ''$BASE_DIR'')"
        using True h by (subst split_loop.simps) (simp add: Let_def)
      also have "\<dots> = (script @ ''\<newline>tmux split-window -h -c '' @ or_default (directory (ps ! i)) ''$BASE_DIR'')
                     @ render_all (map split_command (drop (i + 1) ps))"
        using "1.IH"(1) [OF True refl refl h] .
      finally show ?thesis
        using h by (simp add: d render_all_def render_split_command)
    next
      case v: False
      have "split_loop i ps script =
            split_loop (i + 1) ps
              (script @ ''\<newline>tmux split-window -v -c '' @ or_default (directory (ps ! i)) ''$BASE_DIR'')"
        using True v by (subst split_loop.simps) (simp add: Let_def)
      also have "\<dots> = (script @ ''\<newline>tmux split-window -v -c '' @ or_default (directory (ps ! i)) ''$BASE_DIR'')
                     @ render_all (map split_command (drop (i + 1) ps))"
        using "1.IH"(2) [OF True refl refl v] .
      finally show ?thesis
        using v by (simp add: d render_all_def render_split_command)
    qed
  next
    case False
    then show ?thesis
      by (subst split_loop.simps) (simp add: render_all_def)
  qed
qed

lemma forEach_resize:
  "forEach resize_callback ps i script =
     script @ render_all (concat (map resize_commands (enumerate i ps)))"
  by (induction ps arbitrary: i script)
     (auto simp: render_all_def resize_callback_def resize_commands_def Let_def
           split: option.splits)

lemma forEach_command:
  "forEach command_callback ps i script =
     script @ render_all (concat (map send_commands (enumerate i ps)))"
  by (induction ps arbitrary: i script)
     (auto simp: render_all_def command_callback_def send_commands_def)

lemma render_all_append: "render_all (xs @ ys) = render_all xs @ render_all ys"
  by (simp add: render_all_def)

lemma generateScript_commands:
  "generateScript c = script_header c @ render_all (script_commands c) @ script_footer"
  by (simp add: generateScript_def Let_def split_loop_drop forEach_resize forEach_command
        script_commands_def split_phase_def resize_phase_def command_phase_def
        render_all_append drop_Suc)

lemma filter_split_split_phase [simp]: "filter is_split_window (split_phase c) = split_phase c"
  by (simp add: split_phase_def split_command_def filter_map comp_def)

lemma filter_split_resize_commands [simp]: "filter is_split_window (resize_commands ip) = []"
  by (simp add: resize_commands_def split: option.splits)

lemma filter_split_send_commands [simp]: "filter is_split_window (send_commands ip) = []"
  by (simp add: send_commands_def)

lemma filter_split_resize_phase [simp]: "filter is_split_window (resize_phase c) = []"
  by (simp add: resize_phase_def filter_concat comp_def)

lemma filter_split_command_phase [simp]: "filter is_split_window (command_phase c) = []"
  by (simp add: command_phase_def filter_concat comp_def)

lemma split_commands_of_script:
  "filter is_split_window (script_commands c) = map split_command (tl (panes c))"
  by (simp add: script_commands_def) (simp add: split_phase_def)

lemma filter_send_split_phase [simp]: "filter is_send_keys (split_phase c) = []"
  by (simp add: split_phase_def split_command_def filter_map comp_def)

lemma filter_send_resize_phase [simp]: "filter is_send_keys (resize_phase c) = []"
  by (simp add: resize_phase_def resize_commands_def filter_concat comp_def split: option.splits)

lemma length_filter_send_concat:
  "length (filter is_send_keys (concat (map send_commands (enumerate i ps)))) =
   length (filter (\<lambda>p. truthy (command p)) ps)"
  by (induction ps arbitrary: i) (simp_all add: send_commands_def)

lemma count_resize_pairs_split:
  "count_resize_pairs (map split_command ps @ rest) = count_resize_pairs rest"
  by (induction ps) (simp_all add: split_command_def)

lemma count_resize_pairs_send:
  "count_resize_pairs (concat (map send_commands (enumerate i ps))) = 0"
  by (induction ps arbitrary: i) (simp_all add: send_commands_def)

lemma resize_commands_None: "resize p = None \<Longrightarrow> resize_commands (i, p) = []"
  by (simp add: resize_commands_def)

lemma resize_commands_width:
  "resize p = Some r \<Longrightarrow> type r = ''width'' \<Longrightarrow>
   resize_commands (i, p) = [Select_Pane i, Resize_Pane Width (value r)]"
  by (simp add: resize_commands_def)

lemma resize_commands_height:
  "resize p = Some r \<Longrightarrow> type r = ''height'' \<Longrightarrow>
   resize_commands (i, p) = [Select_Pane i, Resize_Pane Height (value r)]"
  by (simp add: resize_commands_def)

lemma count_resize_pairs_resize:
  assumes "\<forall>p \<in> set ps. \<forall>r. resize p = Some r \<longrightarrow> type r = ''width'' \<or> type r = ''height''"
  shows "count_resize_pairs (concat (map resize_commands (enumerate i ps)) @ rest) =
         length (filter (\<lambda>p. resize p \<noteq> None) ps) + count_resize_pairs rest"
  using assms
proof (induction ps arbitrary: i)
  case Nil
  then show ?case by simp
next
  case (Cons p ps)
  then have IH: "count_resize_pairs (concat (map resize_commands (enumerate (Suc i) ps)) @ rest) =
         length (filter (\<lambda>p. resize p \<noteq> None) ps) + count_resize_pairs rest"
    by simp
  show ?case
  proof (cases "resize p")
    case None
    then show ?thesis using IH by (simp add: resize_commands_None)
  next
    case (Some r)
    with Cons.prems have "type r = ''width'' \<or> type r = ''height''" by simp
    then show ?thesis using IH Some
      by (auto simp: resize_commands_width resize_commands_height)
  qed
qed

lemma string_of_nat_0 [simp]: "string_of_nat 0 = ''0''"
  by code_simp

lemma string_of_nat_1 [simp]: "string_of_nat (Suc 0) = ''1''"
  by code_simp

lemma string_of_int_12 [simp]: "string_of_int 12 = ''12''"
  by code_simp

lemma phases_dev:
  "split_phase dev_layout = [Split_Window Vertical ''$BASE_DIR'', Split_Window Horizontal ''/proj/logs'']"
  "resize_phase dev_layout = [Select_Pane 1, Resize_Pane Height 12]"
  "command_phase dev_layout = [Send_Keys 0 ''npm run dev'', Send_Keys 1 ''npm test'']"
  by (simp_all add: dev_layout_def split_phase_def resize_phase_def command_phase_def
        split_command_def resize_commands_def send_commands_def)

text \<open>
  C9: the compiled script is a function of the layout's name, base directory and panes
  alone, and it is the header, then the split commands of panes \<open>1 ..\<close> in sequence
  order, then the resize commands of all panes in sequence order, then the send-keys
  commands of all panes in sequence order, then the footer. Compiling a layout twice
  therefore gives the same bytes.
\<close>

theorem generateScript_phases:
  "generateScript c =
     script_header c @ render_all (split_phase c) @ render_all (resize_phase c) @
     render_all (command_phase c) @ script_footer
   \<and> (\<forall>c'. name c' = name c \<and> baseDir c' = baseDir c \<and> panes c' = panes c \<longrightarrow>
         generateScript c' = generateScript c)"
proof -
  have "generateScript c =
     script_header c @ render_all (split_phase c) @ render_all (resize_phase c) @
     render_all (command_phase c) @ script_footer"
    by (simp add: generateScript_commands script_commands_def render_all_append)
  moreover have "generateScript c' = generateScript c"
    if "name c' = name c \<and> baseDir c' = baseDir c \<and> panes c' = panes c" for c'
    using that by (simp add: generateScript_def script_header_def)
  ultimately show ?thesis by blast
qed

theorem generateScript_phases_witness:
  "generateScript dev_layout = dev_script
   \<and> generateScript (dev_layout\<lparr>name := ''dev''\<rparr>) = generateScript dev_layout"
proof -
  have h: "name (dev_layout\<lparr>name := ''dev''\<rparr>) = name dev_layout \<and>
           baseDir (dev_layout\<lparr>name := ''dev''\<rparr>) = baseDir dev_layout \<and>
           panes (dev_layout\<lparr>name := ''dev''\<rparr>) = panes dev_layout"
    by (simp add: dev_layout_def)
  have hd: "script_header dev_layout @ render_all (split_phase dev_layout) @
        render_all (resize_phase dev_layout) @ render_all (command_phase dev_layout) @
        script_footer = dev_script"
proof -
    have "script_header dev_layout =
        ''#!/bin/bash\<newline>SESSION='' @ [CHR 0x22] @ ''dev'' @ [CHR 0x22] @ ''\<newline>BASE_DIR=/proj\<newline>'' @
        ''\<newline>tmux has-session -t $SESSION 2>/dev/null && tmux attach -t $SESSION && exit\<newline>'' @
        ''\<newline>tmux new-session -d -s $SESSION -c $BASE_DIR\<newline>''"
      by (simp add: script_header_def dev_layout_def)
    then show ?thesis
      by (simp add: phases_dev render_all_def script_footer_def dev_script_def)
  qed
  show ?thesis
    using generateScript_phases [of dev_layout] h hd by simp
qed

lemma spec_split_line_render:
  "spec_split_line p = Some l \<Longrightarrow> l = render (split_command p)"
  by (cases "directory p")
     (auto simp: spec_split_line_def spec_target_directory_def split_command_def
           split: if_splits)

lemma those_spec_split_lines:
  "those (map spec_split_line ps) = Some ls \<Longrightarrow> ls = map (\<lambda>p. render (split_command p)) ps"
proof (induction ps arbitrary: ls)
  case Nil
  then show ?case by simp
next
  case (Cons p ps)
  then show ?case
    by (auto split: option.splits dest: spec_split_line_render)
qed

text \<open>
  C7: when every pane from index 1 on has the split value horizontal or vertical, the
  compiled script carries, directly after the header and in sequence order, one split
  command per such pane: \<^verbatim>\<open>split-window -h\<close> for horizontal, \<^verbatim>\<open>split-window -v\<close> for
  vertical, with the pane's own directory when set and \<^verbatim>\<open>$BASE_DIR\<close> otherwise.
\<close>

theorem split_commands_follow_panes:
  assumes "those (map spec_split_line (tl (panes c))) = Some ls"
  shows "generateScript c =
           script_header c @ concat ls @ render_all (resize_phase c) @
           render_all (command_phase c) @ script_footer
         \<and> length ls = length (panes c) - 1"
proof -
  have ls: "ls = map (\<lambda>p. render (split_command p)) (tl (panes c))"
    using assms by (rule those_spec_split_lines)
  then have "concat ls = render_all (split_phase c)"
    by (simp add: render_all_def split_phase_def comp_def)
  then show ?thesis
    using ls
    by (simp add: generateScript_commands script_commands_def render_all_append)
qed

theorem split_commands_follow_panes_witness:
  "those (map spec_split_line (tl (panes dev_layout))) =
     Some [''\<newline>tmux split-window -v -c $BASE_DIR'', ''\<newline>tmux split-window -h -c /proj/logs'']
   \<and> generateScript dev_layout =
       script_header dev_layout @
       ''\<newline>tmux split-window -v -c $BASE_DIR'' @ ''\<newline>tmux split-window -h -c /proj/logs'' @
       render_all (resize_phase dev_layout) @ render_all (command_phase dev_layout) @
       script_footer"
proof -
  have h: "those (map spec_split_line (tl (panes dev_layout))) =
     Some [''\<newline>tmux split-window -v -c $BASE_DIR'', ''\<newline>tmux split-window -h -c /proj/logs'']"
    by (simp add: dev_layout_def spec_split_line_def spec_target_directory_def)
  show ?thesis
    using split_commands_follow_panes [OF h] h by simp
qed

subsection \<open>The lines of the compiled script\<close>

lemma lines_of_not_Nil [simp]: "lines_of s \<noteq> []"
  by (induction s) (auto split: list.splits)

lemma lines_of_single: "single_line s \<Longrightarrow> lines_of s = [s]"
  by (induction s) (auto simp: single_line_def)

lemma lines_of_newline: "lines_of (a @ CHR ''\<newline>'' # b) = lines_of a @ lines_of b"
  by (induction a) (auto split: list.splits)


lemma lines_of_Cons:
  "lines_of (c # cs) =
     (if c = CHR ''\<newline>'' then [] # lines_of cs else (c # hd (lines_of cs)) # tl (lines_of cs))"
  by (cases "lines_of cs") simp_all

lemma lines_of_single_append:
  "single_line s \<Longrightarrow> lines_of (s @ b) = (s @ hd (lines_of b)) # tl (lines_of b)"
  by (induction s) (auto simp: lines_of_Cons single_line_def simp del: lines_of.simps(2))

lemma digit_char_no_newline: "d < 10 \<Longrightarrow> digit_char d \<noteq> CHR ''\<newline>''"
proof
  assume d: "d < 10" and eq: "digit_char d = CHR ''\<newline>''"
  then have "(of_char (char_of (48 + d)) :: nat) = of_char (CHR ''\<newline>'')"
    by (simp add: digit_char_def)
  then have "(48 + d) mod 256 = 10"
    by (simp only: of_char_of) simp
  with d show False by simp
qed

lemma single_line_string_of_nat: "single_line (string_of_nat n)"
proof (induction n rule: string_of_nat.induct)
  case (1 n)
  show ?case
  proof (cases "n < 10")
    case True
    then show ?thesis
      using digit_char_no_newline [of n]
      by (subst string_of_nat.simps) (auto simp: single_line_def)
  next
    case False
    then have "single_line (string_of_nat (n div 10))"
      using 1 by simp
    moreover have "digit_char (n mod 10) \<noteq> CHR ''\<newline>''"
      by (rule digit_char_no_newline) simp
    ultimately show ?thesis
      using False by (subst string_of_nat.simps) (auto simp: single_line_def)
  qed
qed

lemma single_line_string_of_int: "single_line (string_of_int k)"
  using single_line_string_of_nat [of "nat k"] single_line_string_of_nat [of "nat (- k)"]
  by (simp add: string_of_int_def single_line_def)

lemma single_line_append [simp]: "single_line (a @ b) = (single_line a \<and> single_line b)"
  by (auto simp: single_line_def)

lemma single_line_Cons [simp]: "single_line (c # s) = (c \<noteq> CHR ''\<newline>'' \<and> single_line s)"
  by (auto simp: single_line_def)

lemma single_line_Nil [simp]: "single_line []"
  by (simp add: single_line_def)

lemma lines_of_render:
  assumes "single_line_command cmd"
  shows "lines_of (a @ render cmd) = lines_of a @ command_lines cmd"
proof (cases cmd)
  case (Split_Window ori dir)
  with assms show ?thesis
    by (cases ori)
       (simp_all add: lines_of_newline lines_of_single del: lines_of.simps(2))
next
  case (Select_Pane i)
  then show ?thesis
    using lines_of_newline [of a "CHR ''\<newline>'' # ''tmux select-pane -t '' @ string_of_nat i"]
      lines_of_newline [of "[]" "''tmux select-pane -t '' @ string_of_nat i"]
    by (simp add: lines_of_single single_line_string_of_nat del: lines_of.simps(2))
next
  case (Resize_Pane d v)
  then show ?thesis
    by (cases d)
       (simp_all add: lines_of_newline lines_of_single single_line_string_of_int
          del: lines_of.simps(2))
next
  case (Send_Keys i c)
  with assms show ?thesis
    by (simp add: lines_of_newline lines_of_single single_line_string_of_nat
          del: lines_of.simps(2))
qed

lemma lines_of_render_all:
  "list_all single_line_command cmds \<Longrightarrow>
   lines_of (a @ render_all cmds) = lines_of a @ concat (map command_lines cmds)"
proof (induction cmds arbitrary: a)
  case Nil
  then show ?case by (simp add: render_all_def)
next
  case (Cons cmd cmds)
  from Cons.prems have "list_all single_line_command cmds"
    by simp
  from Cons.IH [OF this, of "a @ render cmd"]
  have "lines_of (a @ render cmd @ render_all cmds) =
        lines_of (a @ render cmd) @ concat (map command_lines cmds)"
    by simp
  then show ?case
    using Cons.prems by (simp add: render_all_def lines_of_render)
qed

lemma lines_of_line:
  "single_line l \<Longrightarrow> lines_of (l @ CHR ''\<newline>'' # rest) = l # lines_of rest"
  by (simp add: lines_of_newline lines_of_single)

lemma lines_of_empty_line: "lines_of (CHR ''\<newline>'' # rest) = [] # lines_of rest"
  by simp

lemma lines_of_header:
  assumes "single_line (name c)" "single_line (baseDir c)"
  shows "lines_of (script_header c) = header_lines c"
proof -
  define l1 where "l1 = ''#!/bin/bash''"
  define l2 where "l2 = ''SESSION='' @ [CHR 0x22] @ name c @ [CHR 0x22]"
  define l3 where "l3 = ''BASE_DIR='' @ baseDir c"
  define l5 where
    "l5 = ''tmux has-session -t $SESSION 2>/dev/null && tmux attach -t $SESSION && exit''"
  define l7 where "l7 = ''tmux new-session -d -s $SESSION -c $BASE_DIR''"
  have sl: "single_line l1" "single_line l2" "single_line l3" "single_line l5" "single_line l7"
    using assms by (simp_all add: l1_def l2_def l3_def l5_def l7_def)
  have "script_header c =
        l1 @ CHR ''\<newline>'' # l2 @ CHR ''\<newline>'' # l3 @ CHR ''\<newline>'' # CHR ''\<newline>'' #
        l5 @ CHR ''\<newline>'' # CHR ''\<newline>'' # l7 @ CHR ''\<newline>'' # []"
    by (simp add: script_header_def l1_def l2_def l3_def l5_def l7_def)
  then have "lines_of (script_header c) = [l1, l2, l3, [], l5, [], l7, []]"
    by (simp only: lines_of_line [OF sl(1)] lines_of_line [OF sl(2)] lines_of_line [OF sl(3)]
          lines_of_line [OF sl(4)] lines_of_line [OF sl(5)] lines_of_empty_line
          lines_of.simps(1))
  then show ?thesis
    by (simp add: header_lines_def l1_def l2_def l3_def l5_def l7_def)
qed

lemma lines_of_footer: "lines_of (a @ script_footer) = lines_of a @ footer_lines"
proof -
  have "lines_of (a @ CHR ''\<newline>'' # ''\<newline>tmux select-pane -t 0\<newline>tmux attach -t $SESSION\<newline>'') =
        lines_of a @ lines_of ''\<newline>tmux select-pane -t 0\<newline>tmux attach -t $SESSION\<newline>''"
    by (rule lines_of_newline)
  then show ?thesis
    by (simp add: script_footer_def footer_lines_def)
qed

lemma single_line_or_default:
  "single_line (or_default d []) \<Longrightarrow> single_line (or_default d ''$BASE_DIR'')"
  by (cases d) auto

lemma single_line_commands:
  assumes "single_lines c"
  shows "list_all single_line_command (script_commands c)"
proof -
  have ps: "list_all single_line_pane (panes c)"
    using assms by (simp add: single_lines_def)
  then have "list_all single_line_pane (tl (panes c))"
    by (cases "panes c") simp_all
  then have 1: "list_all single_line_command (split_phase c)"
    by (auto simp: split_phase_def split_command_def single_line_pane_def list_all_iff
          single_line_or_default)
  have 2: "list_all single_line_command (concat (map resize_commands (enumerate i ps)))" for i ps
    by (induction ps arbitrary: i) (auto simp: resize_commands_def split: option.splits)
  have 3: "list_all single_line_command (concat (map send_commands (enumerate i ps)))"
    if "list_all single_line_pane ps" for i ps
    using that
  proof (induction ps arbitrary: i)
    case Nil
    then show ?case by simp
  next
    case (Cons p ps)
    then show ?case
      by (cases "command p") (auto simp: send_commands_def single_line_pane_def)
  qed
  show ?thesis
    using 1 2 3 [OF ps]
    by (simp add: script_commands_def resize_phase_def command_phase_def)
qed

lemma lines_of_generateScript:
  assumes "single_lines c"
  shows "lines_of (generateScript c) =
         header_lines c @ concat (map command_lines (script_commands c)) @ footer_lines"
proof -
  have "lines_of (generateScript c) =
        lines_of (script_header c @ render_all (script_commands c)) @ footer_lines"
    using lines_of_footer [of "script_header c @ render_all (script_commands c)"]
    by (simp add: generateScript_commands)
  also have "lines_of (script_header c @ render_all (script_commands c)) =
        lines_of (script_header c) @ concat (map command_lines (script_commands c))"
    using single_line_commands [OF assms] by (rule lines_of_render_all)
  also have "lines_of (script_header c) = header_lines c"
    using assms by (simp add: lines_of_header single_lines_def)
  finally show ?thesis
    by simp
qed


lemma startsWith_append_literal [simp]:
  "startsWith ((c # cs) @ rest) (p # ps) = (c = p \<and> startsWith (cs @ rest) ps)"
  by simp

lemma count_split_lines:
  "length (filter (\<lambda>l. startsWith l ''tmux split-window'') (concat (map command_lines cmds)))
   = length (filter is_split_window cmds)"
proof (induction cmds)
  case Nil
  then show ?case by simp
next
  case (Cons cmd cmds)
  then show ?case
    by (cases cmd rule: command_lines.cases) simp_all
qed

lemma count_send_lines:
  "length (filter (\<lambda>l. startsWith l ''tmux send-keys'') (concat (map command_lines cmds)))
   = length (filter is_send_keys cmds)"
proof (induction cmds)
  case Nil
  then show ?case by simp
next
  case (Cons cmd cmds)
  then show ?case
    by (cases cmd rule: command_lines.cases) simp_all
qed

lemma count_line_pairs_skip:
  "\<not> startsWith l ''tmux select-pane'' \<Longrightarrow> count_line_pairs (l # rest) = count_line_pairs rest"
  by (cases rest) simp_all

lemma count_line_pairs_footer [simp]: "count_line_pairs footer_lines = 0"
  by (simp add: footer_lines_def)

lemma count_line_pairs_commands:
  "count_line_pairs (concat (map command_lines cmds) @ footer_lines) = count_resize_pairs cmds"
proof (induction cmds rule: induct_list012)
  case 1
  then show ?case by simp
next
  case (2 x)
  then show ?case
    by (cases x rule: command_lines.cases) (simp_all add: footer_lines_def count_line_pairs_skip)
next
  case (3 x y zs)
  show ?case
  proof (cases x rule: command_lines.cases)
    case (3 i)
    then show ?thesis
      using "3.IH"
      by (cases y rule: command_lines.cases) (simp_all add: count_line_pairs_skip)
  qed (use "3.IH" in \<open>simp_all add: count_line_pairs_skip\<close>)
qed


lemma count_split_windows:
  "panes c \<noteq> [] \<Longrightarrow> Suc (length (filter is_split_window (script_commands c))) = length (panes c)"
  by (simp add: split_commands_of_script)

lemma count_resize_pairs_script:
  "resize_types_known c \<Longrightarrow>
   count_resize_pairs (script_commands c) = length (filter (\<lambda>p. resize p \<noteq> None) (panes c))"
  unfolding script_commands_def split_phase_def resize_phase_def command_phase_def
  by (simp add: count_resize_pairs_split count_resize_pairs_resize resize_types_known_def
        count_resize_pairs_send)

lemma count_send_keys:
  "length (filter is_send_keys (script_commands c)) =
   length (filter (\<lambda>p. truthy (command p)) (panes c))"
  by (simp add: script_commands_def) (simp add: command_phase_def length_filter_send_concat)

lemma header_lines_no_command:
  "filter (\<lambda>l. startsWith l ''tmux split-window'') (header_lines c) = []"
  "filter (\<lambda>l. startsWith l ''tmux send-keys'') (header_lines c) = []"
  by (simp_all add: header_lines_def)

lemma footer_lines_no_command:
  "filter (\<lambda>l. startsWith l ''tmux split-window'') footer_lines = []"
  "filter (\<lambda>l. startsWith l ''tmux send-keys'') footer_lines = []"
  by (simp_all add: footer_lines_def)

lemma count_line_pairs_header:
  "count_line_pairs (header_lines c @ rest) = count_line_pairs rest"
  by (simp add: header_lines_def count_line_pairs_skip)

lemma script_line_counts:
  assumes "single_lines c" "panes c \<noteq> []" "resize_types_known c"
  shows "Suc (length (filter (\<lambda>l. startsWith l ''tmux split-window'') (lines_of (generateScript c))))
           = length (panes c)"
    and "count_line_pairs (lines_of (generateScript c))
           = length (filter (\<lambda>p. resize p \<noteq> None) (panes c))"
    and "length (filter (\<lambda>l. startsWith l ''tmux send-keys'') (lines_of (generateScript c)))
           = length (filter (\<lambda>p. truthy (command p)) (panes c))"
proof -
  note ls = lines_of_generateScript [OF assms(1)]
  show "Suc (length (filter (\<lambda>l. startsWith l ''tmux split-window'') (lines_of (generateScript c))))
           = length (panes c)"
    using count_split_windows [OF assms(2)]
    by (simp add: ls header_lines_no_command footer_lines_no_command count_split_lines)
  show "count_line_pairs (lines_of (generateScript c))
           = length (filter (\<lambda>p. resize p \<noteq> None) (panes c))"
    using count_resize_pairs_script [OF assms(3)]
    by (simp add: ls count_line_pairs_header count_line_pairs_commands)
  show "length (filter (\<lambda>l. startsWith l ''tmux send-keys'') (lines_of (generateScript c)))
           = length (filter (\<lambda>p. truthy (command p)) (panes c))"
    using count_send_keys [of c]
    by (simp add: ls header_lines_no_command footer_lines_no_command count_send_lines)
qed

text \<open>
  C1: for a layout with \<open>n\<close> panes (at least one, every resize of type width or height),
  the commands of the compiled script, whose rendering between header and footer is the
  script, contain exactly \<open>n - 1\<close> split commands, one select-pane/resize-pane pair per
  pane with a resize, and one send-keys command per pane with a non-empty command. When
  no string of the layout holds a line break, the same counts hold for the lines of the
  script text: the lines that start with \<^verbatim>\<open>tmux split-window\<close>, the pairs of a line that
  starts with \<^verbatim>\<open>tmux select-pane\<close> and a next line that starts with \<^verbatim>\<open>tmux resize-pane\<close>,
  and the lines that start with \<^verbatim>\<open>tmux send-keys\<close>.
\<close>

theorem script_command_counts:
  assumes "panes c \<noteq> []"
    and "resize_types_known c"
  shows "generateScript c = script_header c @ render_all (script_commands c) @ script_footer
       \<and> Suc (length (filter is_split_window (script_commands c))) = length (panes c)
       \<and> count_resize_pairs (script_commands c) = length (filter (\<lambda>p. resize p \<noteq> None) (panes c))
       \<and> length (filter is_send_keys (script_commands c)) =
           length (filter (\<lambda>p. truthy (command p)) (panes c))
       \<and> (single_lines c \<longrightarrow>
            Suc (length (filter (\<lambda>l. startsWith l ''tmux split-window'')
                   (lines_of (generateScript c)))) = length (panes c)
            \<and> count_line_pairs (lines_of (generateScript c))
                = length (filter (\<lambda>p. resize p \<noteq> None) (panes c))
            \<and> length (filter (\<lambda>l. startsWith l ''tmux send-keys'') (lines_of (generateScript c)))
                = length (filter (\<lambda>p. truthy (command p)) (panes c)))"
  using generateScript_commands [of c] count_split_windows [OF assms(1)]
    count_resize_pairs_script [OF assms(2)] count_send_keys [of c]
    script_line_counts [OF _ assms]
  by simp

theorem script_command_counts_witness:
  "panes dev_layout \<noteq> []
   \<and> resize_types_known dev_layout
   \<and> single_lines dev_layout
   \<and> length (panes dev_layout) = 3
   \<and> length (filter is_split_window (script_commands dev_layout)) = 2
   \<and> count_resize_pairs (script_commands dev_layout) = 1
   \<and> length (filter is_send_keys (script_commands dev_layout)) = 2
   \<and> length (filter (\<lambda>l. startsWith l ''tmux split-window'') (lines_of (generateScript dev_layout))) = 2
   \<and> count_line_pairs (lines_of (generateScript dev_layout)) = 1
   \<and> length (filter (\<lambda>l. startsWith l ''tmux send-keys'') (lines_of (generateScript dev_layout))) = 2"
proof -
  have h1: "panes dev_layout \<noteq> []"
    by (simp add: dev_layout_def)
  have h2: "resize_types_known dev_layout"
    by (simp add: dev_layout_def resize_types_known_def)
  have h3: "single_lines dev_layout"
    by (simp add: dev_layout_def single_lines_def single_line_pane_def)
  have n: "length (panes dev_layout) = 3"
    by (simp add: dev_layout_def)
  have r: "length (filter (\<lambda>p. resize p \<noteq> None) (panes dev_layout)) = 1"
    by (simp add: dev_layout_def)
  have k: "length (filter (\<lambda>p. truthy (command p)) (panes dev_layout)) = 2"
    by (simp add: dev_layout_def)
  show ?thesis
    using script_command_counts [OF h1 h2, THEN conjunct2] h1 h2 h3 n r k by simp
qed

section \<open>Properties of the editor flows\<close>

lemma edit_field_pane0:
  "field_value a \<in> set (fieldChoices 0) \<Longrightarrow>
   split (edit_field a p) = split p \<and> directory (edit_field a p) = directory p"
  by (cases "(a, p)" rule: edit_field.cases) (auto simp: fieldChoices_def)

lemma edit_pane_pane0:
  "list_all (\<lambda>a. field_value a \<in> set (fieldChoices 0)) answers \<Longrightarrow>
   split (edit_pane answers p) = split p \<and> directory (edit_pane answers p) = directory p"
  unfolding edit_pane_def
  by (induction answers arbitrary: p) (simp_all add: edit_field_pane0)

lemma hd_list_update: "xs \<noteq> [] \<Longrightarrow> hd (xs[i := v]) = (if i = 0 then v else hd xs)"
  by (cases xs; cases i) simp_all

lemma hd_butlast: "1 < length xs \<Longrightarrow> hd (butlast xs) = hd xs \<and> butlast xs \<noteq> []"
  by (cases xs) (auto simp: neq_Nil_conv)

lemma hd_splice1: "0 < i \<Longrightarrow> i < length xs \<Longrightarrow> hd (splice1 i xs) = hd xs \<and> splice1 i xs \<noteq> []"
  by (cases xs; cases i) (simp_all add: splice1_def)

lemma length_splice1: "i < length xs \<Longrightarrow> Suc (length (splice1 i xs)) = length xs"
  by (simp add: splice1_def)

lemma create_step_invariant:
  assumes "pane0_invariant c" "create_offered c a" "create_step c a = Creating c'"
  shows "pane0_invariant c' \<and> directory (hd (panes c')) = directory (hd (panes c)) \<and>
         (length (panes c') < length (panes c) \<longrightarrow> hd (panes c') = hd (panes c))"
proof (cases a)
  case (CEdit_Pane i answers)
  with assms show ?thesis
    by (cases "i = 0")
       (auto simp: pane0_invariant_def hd_list_update edit_pane_pane0 hd_conv_nth [symmetric]
             split: if_splits)
next
  case (CAdd_Pane ans)
  with assms show ?thesis
    by (cases ans) (auto simp: pane0_invariant_def)
next
  case CRemove_Last_Pane
  with assms show ?thesis
    using hd_butlast [of "panes c"] by (auto simp: pane0_invariant_def)
qed (use assms in \<open>auto simp: pane0_invariant_def\<close>)

lemma edit_step_invariant:
  assumes "pane0_invariant c" "edit_offered c a" "edit_step c a = Editing c'"
  shows "pane0_invariant c' \<and> directory (hd (panes c')) = directory (hd (panes c)) \<and>
         (length (panes c') < length (panes c) \<longrightarrow> hd (panes c') = hd (panes c))"
proof (cases a)
  case (EEdit_Pane sel answers)
  with assms show ?thesis
    by (cases sel; cases "the sel = 0")
       (auto simp: pane0_invariant_def hd_list_update edit_pane_pane0 hd_conv_nth [symmetric]
             split: if_splits)
next
  case (EAdd_Pane ans)
  with assms show ?thesis
    by (cases ans) (auto simp: pane0_invariant_def)
next
  case (ERemove_Pane sel sure)
  with assms show ?thesis
    by (cases sel) (auto simp: pane0_invariant_def hd_splice1 split: if_splits)
qed (use assms in \<open>auto simp: pane0_invariant_def split: if_splits\<close>)

lemma create_session_dev: "create_loop (initial_config ''/proj'') dev_session = Creating dev_layout"
  by (simp add: dev_session_def initial_config_def dev_layout_def edit_pane_def new_pane_def)

text \<open>
  C6: every transition of the create flow and of the edit flow that the menus offer keeps
  the invariant (pane 0 exists and has no split value) and the directory of pane 0, so
  that pane 0 changes in its command and resize at most; a transition that shortens the
  pane list leaves pane 0 itself in place; and the create flow starts in a state that
  satisfies the invariant.
\<close>

theorem editor_transitions_keep_pane0:
  assumes "pane0_invariant c"
  shows "(create_offered c a \<and> create_step c a = Creating c' \<longrightarrow>
            pane0_invariant c' \<and> directory (hd (panes c')) = directory (hd (panes c)) \<and>
            (length (panes c') < length (panes c) \<longrightarrow> hd (panes c') = hd (panes c)))
       \<and> (edit_offered c b \<and> edit_step c b = Editing c'' \<longrightarrow>
            pane0_invariant c'' \<and> directory (hd (panes c'')) = directory (hd (panes c)) \<and>
            (length (panes c'') < length (panes c) \<longrightarrow> hd (panes c'') = hd (panes c)))
       \<and> pane0_invariant (initial_config cwd)"
proof -
  have "pane0_invariant (initial_config cwd)"
    by (simp add: pane0_invariant_def initial_config_def)
  then show ?thesis
    using create_step_invariant [OF assms] edit_step_invariant [OF assms] by blast
qed

theorem editor_transitions_keep_pane0_witness:
  "pane0_invariant dev_layout
   \<and> create_offered dev_layout CRemove_Last_Pane
   \<and> create_step dev_layout CRemove_Last_Pane = Creating (dev_layout\<lparr>panes := take 2 (panes dev_layout)\<rparr>)
   \<and> pane0_invariant (dev_layout\<lparr>panes := take 2 (panes dev_layout)\<rparr>)
   \<and> edit_offered dev_layout (ERemove_Pane (Some 1) True)
   \<and> edit_step dev_layout (ERemove_Pane (Some 1) True) =
         Editing (dev_layout\<lparr>panes := [panes dev_layout ! 0, panes dev_layout ! 2]\<rparr>)
   \<and> pane0_invariant (dev_layout\<lparr>panes := [panes dev_layout ! 0, panes dev_layout ! 2]\<rparr>)"
proof -
  have inv: "pane0_invariant dev_layout"
    by (simp add: pane0_invariant_def dev_layout_def)
  have c1: "create_offered dev_layout CRemove_Last_Pane"
    by (simp add: dev_layout_def)
  have c2: "create_step dev_layout CRemove_Last_Pane =
            Creating (dev_layout\<lparr>panes := take 2 (panes dev_layout)\<rparr>)"
    by (simp add: dev_layout_def)
  have e1: "edit_offered dev_layout (ERemove_Pane (Some 1) True)"
    by (simp add: dev_layout_def)
  have e2: "edit_step dev_layout (ERemove_Pane (Some 1) True) =
            Editing (dev_layout\<lparr>panes := [panes dev_layout ! 0, panes dev_layout ! 2]\<rparr>)"
    by (simp add: dev_layout_def splice1_def)
  show ?thesis
    using editor_transitions_keep_pane0 [OF inv, of CRemove_Last_Pane _ "ERemove_Pane (Some 1) True"]
      inv c1 c2 e1 e2 by simp
qed

lemma butlast_splice1: "butlast xs = splice1 (length xs - 1) xs"
  by (cases "xs = []") (simp_all add: splice1_def butlast_conv_take)

text \<open>
  The create flow removes a pane without asking: after the keystrokes that build the
  layout dev, the entry \<^verbatim>\<open>Remove last pane\<close> takes pane 2 away, and the transition holds
  no prompt of type confirm.
\<close>

theorem pane_removal_counterexample:
  "create_loop (initial_config ''/proj'') dev_session = Creating dev_layout
   \<and> length (panes dev_layout) = 3
   \<and> create_offered dev_layout CRemove_Last_Pane
   \<and> create_step dev_layout CRemove_Last_Pane =
         Creating (dev_layout\<lparr>panes := take 2 (panes dev_layout)\<rparr>)
   \<and> create_confirmations CRemove_Last_Pane = []"
  using create_session_dev by (simp add: dev_layout_def)

text \<open>
  C5, as the program has it: in both flows a transition that removes a pane removes one
  pane at a non-zero index; in the create flow it is the entry \<^verbatim>\<open>Remove last pane\<close> and
  the index is the last, in the edit flow it is the entry \<^verbatim>\<open>Remove pane\<close> with the
  user's answer yes to the confirmation of that removal.
\<close>

theorem pane_removal:
  "(create_offered c a \<and> create_step c a = Creating c' \<and> length (panes c') < length (panes c) \<longrightarrow>
      a = CRemove_Last_Pane \<and> 0 < length (panes c) - 1 \<and>
      panes c' = splice1 (length (panes c) - 1) (panes c))
   \<and> (edit_offered c b \<and> edit_step c b = Editing c'' \<and> length (panes c'') < length (panes c) \<longrightarrow>
      (\<exists>i. b = ERemove_Pane (Some i) True \<and> 0 < i \<and> i < length (panes c) \<and>
           panes c'' = splice1 i (panes c) \<and> edit_confirmations c b = [True]))"
proof -
  have "a = CRemove_Last_Pane \<and> 0 < length (panes c) - 1 \<and>
        panes c' = splice1 (length (panes c) - 1) (panes c)"
    if "create_offered c a" "create_step c a = Creating c'" "length (panes c') < length (panes c)"
  proof (cases a)
    case (CAdd_Pane ans)
    with that show ?thesis by (cases ans) auto
  next
    case CRemove_Last_Pane
    with that show ?thesis by (auto simp: butlast_splice1)
  qed (use that in \<open>auto split: if_splits\<close>)
  moreover have "\<exists>i. b = ERemove_Pane (Some i) True \<and> 0 < i \<and> i < length (panes c) \<and>
           panes c'' = splice1 i (panes c) \<and> edit_confirmations c b = [True]"
    if "edit_offered c b" "edit_step c b = Editing c''" "length (panes c'') < length (panes c)"
  proof (cases b)
    case (EAdd_Pane ans)
    with that show ?thesis by (cases ans) auto
  next
    case (EEdit_Pane sel answers)
    with that show ?thesis by (cases sel) (auto split: if_splits)
  next
    case (ERemove_Pane sel sure)
    with that show ?thesis by (cases sel) (auto split: if_splits)
  qed (use that in \<open>auto split: if_splits\<close>)
  ultimately show ?thesis by blast
qed

theorem pane_removal_witness:
  "edit_offered dev_layout (ERemove_Pane (Some 1) True)
   \<and> edit_step dev_layout (ERemove_Pane (Some 1) True) =
         Editing (dev_layout\<lparr>panes := splice1 1 (panes dev_layout)\<rparr>)
   \<and> length (splice1 1 (panes dev_layout)) = 2
   \<and> edit_confirmations dev_layout (ERemove_Pane (Some 1) True) = [True]
   \<and> create_offered dev_layout CRemove_Last_Pane
   \<and> create_step dev_layout CRemove_Last_Pane =
         Creating (dev_layout\<lparr>panes := splice1 2 (panes dev_layout)\<rparr>)"
proof -
  have e1: "edit_offered dev_layout (ERemove_Pane (Some 1) True)"
    by (simp add: dev_layout_def)
  have e2: "edit_step dev_layout (ERemove_Pane (Some 1) True) =
            Editing (dev_layout\<lparr>panes := splice1 1 (panes dev_layout)\<rparr>)"
    by (simp add: dev_layout_def)
  have e3: "length (panes (dev_layout\<lparr>panes := splice1 1 (panes dev_layout)\<rparr>)) < length (panes dev_layout)"
    by (simp add: dev_layout_def splice1_def)
  have c1: "create_offered dev_layout CRemove_Last_Pane"
    by (simp add: dev_layout_def)
  have c2: "create_step dev_layout CRemove_Last_Pane =
            Creating (dev_layout\<lparr>panes := butlast (panes dev_layout)\<rparr>)"
    by simp
  have c3: "length (panes (dev_layout\<lparr>panes := butlast (panes dev_layout)\<rparr>)) < length (panes dev_layout)"
    by (simp add: dev_layout_def)
  have n: "length (panes dev_layout) - 1 = 2" "length (splice1 1 (panes dev_layout)) = 2"
    by (simp_all add: dev_layout_def splice1_def)
  from pane_removal [of dev_layout CRemove_Last_Pane "dev_layout\<lparr>panes := butlast (panes dev_layout)\<rparr>"
      "ERemove_Pane (Some 1) True" "dev_layout\<lparr>panes := splice1 1 (panes dev_layout)\<rparr>"]
  have "butlast (panes dev_layout) = splice1 2 (panes dev_layout)
        \<and> edit_confirmations dev_layout (ERemove_Pane (Some 1) True) = [True]"
    using e1 e2 e3 c1 c2 c3 n by auto
  then show ?thesis
    using e1 e2 c1 c2 n by simp
qed

subsection \<open>Layouts that the editor flows produce\<close>

lemma pane_ok_orientation:
  "orientation_text ori = ''horizontal'' \<or> orientation_text ori = ''vertical''"
  by (cases ori) simp_all

lemma pane_ok_dimension: "dimension_text t = ''width'' \<or> dimension_text t = ''height''"
  by (cases t) simp_all



lemma layout_ok_iff:
  "layout_ok c =
     (panes c \<noteq> [] \<and> split (hd (panes c)) = None \<and> resize_ok (hd (panes c)) \<and>
      list_all pane_ok (tl (panes c)))"
  by (cases "panes c")
     (auto simp: layout_ok_def pane0_invariant_def splits_known_def resize_types_known_def
           pane_ok_def resize_ok_def list_all_iff)

lemma new_pane_ok: "pane_ok (new_pane ori d cmd rs)"
  using pane_ok_orientation [of ori]
  by (cases rs) (auto simp: pane_ok_def new_pane_def pane_ok_dimension)

lemma edit_field_resize_ok: "resize_ok p \<Longrightarrow> resize_ok (edit_field a p)"
  by (cases "(a, p)" rule: edit_field.cases) (auto simp: resize_ok_def pane_ok_dimension)

lemma edit_field_pane_ok:
  assumes "pane_ok p"
  shows "pane_ok (edit_field a p)"
proof (cases "(a, p)" rule: edit_field.cases)
  case (2 ori q)
  then show ?thesis
    using assms pane_ok_orientation [of ori] by (auto simp: pane_ok_def)
qed (use assms in \<open>auto simp: pane_ok_def pane_ok_dimension\<close>)

lemma edit_pane_resize_ok: "resize_ok p \<Longrightarrow> resize_ok (edit_pane answers p)"
  unfolding edit_pane_def
  by (induction answers arbitrary: p) (simp_all add: edit_field_resize_ok)

lemma edit_pane_pane_ok: "pane_ok p \<Longrightarrow> pane_ok (edit_pane answers p)"
  unfolding edit_pane_def
  by (induction answers arbitrary: p) (simp_all add: edit_field_pane_ok)

lemma layout_ok_update:
  assumes "layout_ok c" "i < length (panes c)"
    and "list_all (\<lambda>a. field_value a \<in> set (fieldChoices i)) answers"
  shows "layout_ok (c\<lparr>panes := (panes c)[i := edit_pane answers (panes c ! i)]\<rparr>)"
proof (cases "panes c")
  case Nil
  with assms show ?thesis by simp
next
  case (Cons p ps)
  show ?thesis
  proof (cases i)
    case 0
    with assms Cons show ?thesis
      by (simp add: layout_ok_iff edit_pane_pane0 edit_pane_resize_ok)
  next
    case (Suc j)
    with assms Cons have "j < length ps" "list_all pane_ok ps"
      by (simp_all add: layout_ok_iff)
    then have "list_all pane_ok (ps[j := edit_pane answers (ps ! j)])"
      by (auto simp: list_all_length nth_list_update edit_pane_pane_ok)
    with assms Cons Suc show ?thesis
      by (simp add: layout_ok_iff)
  qed
qed

lemma layout_ok_add: "layout_ok c \<Longrightarrow> layout_ok (c\<lparr>panes := panes c @ [new_pane ori d cmd rs]\<rparr>)"
  by (cases "panes c") (simp_all add: layout_ok_iff new_pane_ok)

lemma layout_ok_butlast:
  "layout_ok c \<Longrightarrow> 1 < length (panes c) \<Longrightarrow> layout_ok (c\<lparr>panes := butlast (panes c)\<rparr>)"
  by (cases "panes c") (auto simp: layout_ok_iff list_all_iff dest: in_set_butlastD)

lemma layout_ok_splice1:
  "layout_ok c \<Longrightarrow> 0 < i \<Longrightarrow> layout_ok (c\<lparr>panes := splice1 i (panes c)\<rparr>)"
  by (cases "panes c"; cases i)
     (auto simp: layout_ok_iff list_all_iff splice1_def dest: in_set_takeD in_set_dropD)

lemma create_step_layout_ok:
  assumes "layout_ok c" "create_offered c a" "create_step c a = Creating c'"
  shows "layout_ok c'"
proof (cases a)
  case (CEdit_Pane i answers)
  with assms show ?thesis by (auto simp: layout_ok_update split: if_splits)
next
  case (CAdd_Pane ans)
  with assms show ?thesis by (cases ans) (auto simp: layout_ok_add)
next
  case CRemove_Last_Pane
  with assms show ?thesis by (auto simp: layout_ok_butlast)
qed (use assms in \<open>auto simp: layout_ok_iff\<close>)

lemma edit_step_layout_ok:
  assumes "layout_ok c" "edit_offered c a" "edit_step c a = Editing c'"
  shows "layout_ok c'"
proof (cases a)
  case (EEdit_Pane sel answers)
  with assms show ?thesis by (cases sel) (auto simp: layout_ok_update split: if_splits)
next
  case (EAdd_Pane ans)
  with assms show ?thesis by (cases ans) (auto simp: layout_ok_add)
next
  case (ERemove_Pane sel sure)
  with assms show ?thesis by (cases sel) (auto simp: layout_ok_splice1 split: if_splits)
qed (use assms in \<open>auto simp: layout_ok_iff split: if_splits\<close>)

lemma create_step_confirmed: "create_step c a = Create_Confirmed c' \<Longrightarrow> a = CCreate \<and> c' = c"
  by (cases "(c, a)" rule: create_step.cases) (auto split: if_splits)

lemma edit_step_saved: "edit_step c a = Edit_Saved c' \<Longrightarrow> a = ESave_And_Exit \<and> c' = c"
  by (cases "(c, a)" rule: edit_step.cases) (auto split: if_splits option.splits)

lemma create_loop_layout_ok:
  "layout_ok c \<Longrightarrow> create_run_offered c actions \<Longrightarrow>
   create_loop c actions = Create_Confirmed c' \<or> create_loop c actions = Creating c' \<Longrightarrow>
   layout_ok c'"
proof (induction actions arbitrary: c)
  case Nil
  then show ?case by simp
next
  case (Cons a as)
  show ?case
  proof (cases "create_step c a")
    case (Creating c1)
    with Cons.prems have "layout_ok c1" "create_run_offered c1 as"
      by (auto simp: create_step_layout_ok)
    with Cons.IH [of c1] Cons.prems(3) Creating show ?thesis by simp
  next
    case (Create_Confirmed c1)
    with Cons.prems show ?thesis by (auto dest: create_step_confirmed)
  qed (use Cons.prems in auto)
qed

lemma edit_loop_layout_ok:
  "layout_ok c \<Longrightarrow> edit_run_offered c actions \<Longrightarrow>
   edit_loop c actions = Edit_Saved c' \<or> edit_loop c actions = Editing c' \<Longrightarrow>
   layout_ok c'"
proof (induction actions arbitrary: c)
  case Nil
  then show ?case by simp
next
  case (Cons a as)
  show ?case
  proof (cases "edit_step c a")
    case (Editing c1)
    with Cons.prems have "layout_ok c1" "edit_run_offered c1 as"
      by (auto simp: edit_step_layout_ok)
    with Cons.IH [of c1] Cons.prems(3) Editing show ?thesis by simp
  next
    case (Edit_Saved c1)
    with Cons.prems show ?thesis by (auto dest: edit_step_saved)
  qed (use Cons.prems in auto)
qed

lemma initial_config_layout_ok: "layout_ok (initial_config cwd)"
  by (simp add: layout_ok_iff initial_config_def resize_ok_def)

lemma created_layout_ok:
  "create_run_offered (initial_config cwd) actions \<Longrightarrow>
   create_loop (initial_config cwd) actions = Create_Confirmed c \<Longrightarrow>
   layout_ok c \<and> name c \<noteq> []"
proof -
  assume run: "create_run_offered (initial_config cwd) actions"
    and fin: "create_loop (initial_config cwd) actions = Create_Confirmed c"
  have ok: "layout_ok c"
    using create_loop_layout_ok [OF initial_config_layout_ok run] fin by simp
  have "name c' \<noteq> []"
    if "create_run_offered c0 actions" "create_loop c0 actions = Create_Confirmed c'" for c0 c'
    using that
  proof (induction actions arbitrary: c0)
    case Nil
    then show ?case by simp
  next
    case (Cons a as)
    show ?case
    proof (cases "create_step c0 a")
      case (Creating c1)
      with Cons show ?thesis by auto
    next
      case (Create_Confirmed c1)
      with Cons.prems show ?thesis by (auto dest: create_step_confirmed)
    qed (use Cons.prems in auto)
  qed
  with run fin ok show ?thesis by blast
qed

lemma layout_ok_split_lines:
  "layout_ok c \<Longrightarrow> \<exists>ls. those (map spec_split_line (tl (panes c))) = Some ls"
proof -
  have "\<exists>ls. those (map spec_split_line ps) = Some ls" if "list_all pane_ok ps" for ps
    using that by (induction ps) (auto simp: pane_ok_def spec_split_line_def)
  then show "layout_ok c \<Longrightarrow> \<exists>ls. those (map spec_split_line (tl (panes c))) = Some ls"
    by (simp add: layout_ok_iff)
qed

section \<open>Properties of the storage and of the commands\<close>

lemma replace_sh_suffix: "\<not> includes_str w ''.sh'' \<Longrightarrow> replace (w @ ''.sh'') ''.sh'' [] = w"
proof (induction w)
  case Nil
  then show ?case by simp
next
  case (Cons c cs)
  have "includes_str (c # cs) ''.sh'' =
        (take (length ''.sh'') (c # cs) = ''.sh'' \<or> includes_str cs ''.sh'')"
    by (rule includes_str.simps(2))
  with Cons.prems have no: "take (length ''.sh'') (c # cs) \<noteq> ''.sh''" and rest: "\<not> includes_str cs ''.sh''"
    by blast+
  have "take (length ''.sh'') (c # cs @ ''.sh'') \<noteq> ''.sh''"
  proof (cases cs)
    case Nil
    then show ?thesis by simp
  next
    case (Cons d ds)
    then show ?thesis using no by (cases ds) auto
  qed
  then have "replace (c # (cs @ ''.sh'')) ''.sh'' [] = c # replace (cs @ ''.sh'') ''.sh'' []"
    by (simp only: replace.simps if_False)
  then show ?case
    by (simp only: append_Cons Cons.IH [OF rest])
qed

lemma endsWith_append [simp]: "endsWith (w @ suffix) suffix"
  by (simp add: endsWith_def)

lemma existsSync_in_readdir:
  "existsSync d f \<Longrightarrow> \<exists>files. readdir d = Inr files \<and> f \<in> set files"
  by (cases d) (auto simp: existsSync_def readdir_def dest: map_of_SomeD intro: rev_image_eqI)

lemma listed_workspace:
  assumes "existsSync (script_dir s) (w @ ''.sh'')"
  shows "replace (w @ ''.sh'') ''.sh'' [] \<in> set (getWorkspaces s)"
proof -
  obtain files where f: "readdir (script_dir s) = Inr files" "w @ ''.sh'' \<in> set files"
    using existsSync_in_readdir [OF assms] by blast
  then show ?thesis
    by (simp add: getWorkspaces_def)
qed

lemma descriptor_unusable_load: "descriptor_unusable J s w \<Longrightarrow> loadConfig J s w = None"
  by (auto simp: descriptor_unusable_def loadConfig_def split: sum.splits)

lemma load_command_runs:
  "(spawned (load_command s w) = Some (w @ ''.sh'') \<and> exit_code (load_command s w) = 0)
     = existsSync (script_dir s) (w @ ''.sh'')"
  by (simp add: load_command_def report_def)

lemma load_command_not_found:
  "(printed (load_command s w) = [Not_Found w] \<and> exit_code (load_command s w) = 1)
     = (\<not> existsSync (script_dir s) (w @ ''.sh''))"
  by (simp add: load_command_def report_def)

lemma write_workspace_not_found: "printed (write_workspace J s nm c (Updated w)) \<noteq> [Not_Found w']"
  by (simp add: write_workspace_def report_def split: sum.splits)

lemma edit_end_not_found: "printed (edit_end J s w out) \<noteq> [Not_Found w']"
  by (auto simp: edit_end_def report_def write_workspace_not_found
           split: option.splits edit_outcome.splits sum.splits)

lemma edit_command_not_found:
  "(printed (edit_command J s w actions) = [Not_Found w]) = (loadConfig J s w = None)"
  by (simp add: edit_command_def report_def edit_end_not_found
           split: option.splits loaded.splits)

lemma edit_command_not_found_exit:
  "loadConfig J s w = None \<Longrightarrow>
   exit_code (edit_command J s w actions) = 1 \<and> files (edit_command J s w actions) = s"
  by (simp add: edit_command_def report_def)

lemma rename_files_not_found: "printed (rename_files J s w n c) \<noteq> [Not_Found w']"
  by (simp add: rename_files_def report_def Let_def split: sum.splits)

lemma rename_files_without_panes_not_found:
  "printed (rename_files_without_panes s w n obj) \<noteq> [Not_Found w']"
  by (simp add: rename_files_without_panes_def report_def Let_def split: sum.splits)

lemma rename_command_not_found:
  assumes "w = (if \<not> truthy workspace_arg then picked answers else the workspace_arg)"
  shows "(printed (rename_command J s workspace_arg newname_arg answers) = [Not_Found w])
         = (getWorkspaces s \<noteq> [] \<and> loadConfig J s w = None)"
  using assms
  by (simp add: rename_command_def report_def Let_def rename_files_not_found
        rename_files_without_panes_not_found split: option.splits loaded.splits)

lemma rename_command_not_found_exit:
  assumes "w = (if \<not> truthy workspace_arg then picked answers else the workspace_arg)"
    and "getWorkspaces s \<noteq> []" "loadConfig J s w = None"
  shows "exit_code (rename_command J s workspace_arg newname_arg answers) = 1
         \<and> files (rename_command J s workspace_arg newname_arg answers) = s"
  using assms
  by (simp add: rename_command_def report_def Let_def)

lemma list_loop_complete:
  "list_all (\<lambda>ws. \<not> without_panes (loadConfig J s ws)) names \<Longrightarrow>
   \<exists>es. list_loop J s names = Inr es \<and> map fst es = names
        \<and> (\<forall>ws \<in> set names. loadConfig J s ws = None \<longrightarrow> (ws, None) \<in> set es)"
proof (induction names)
  case Nil
  then show ?case by simp
next
  case (Cons ws rest)
  then obtain es where es: "list_loop J s rest = Inr es" "map fst es = rest"
    "\<forall>ws \<in> set rest. loadConfig J s ws = None \<longrightarrow> (ws, None) \<in> set es"
    by auto
  from Cons.prems have "\<not> without_panes (loadConfig J s ws)"
    by simp
  then obtain e where e: "list_entry J s ws = Some e" "fst e = ws"
    "loadConfig J s ws = None \<longrightarrow> e = (ws, None)"
    by (auto simp: list_entry_def without_panes_def split: option.splits loaded.splits)
  then show ?case
    using es by auto
qed

lemma list_loop_throws:
  "\<not> list_all (\<lambda>ws. \<not> without_panes (loadConfig J s ws)) names \<Longrightarrow>
   \<exists>shown. list_loop J s names = Inl shown"
proof (induction names)
  case Nil
  then show ?case by simp
next
  case (Cons ws rest)
  show ?case
  proof (cases "list_entry J s ws")
    case None
    then show ?thesis by simp
  next
    case (Some e)
    then have "\<not> without_panes (loadConfig J s ws)"
      by (auto simp: list_entry_def without_panes_def split: option.splits loaded.splits)
    with Cons.prems have "\<not> list_all (\<lambda>ws. \<not> without_panes (loadConfig J s ws)) rest"
      by simp
    then obtain shown where "list_loop J s rest = Inl shown"
      using Cons.IH by blast
    then show ?thesis
      using Some by simp
  qed
qed

lemma list_entries_complete:
  "panes_present J s \<Longrightarrow>
   \<exists>es. list_entries J s = Inr es \<and> map fst es = getWorkspaces s
        \<and> (\<forall>ws \<in> set (getWorkspaces s). loadConfig J s ws = None \<longrightarrow> (ws, None) \<in> set es)"
  unfolding panes_present_def list_entries_def by (rule list_loop_complete)

text \<open>
  Where some listed name has a descriptor without panes, \<^verbatim>\<open>list\<close> ends with the uncaught
  \<^verbatim>\<open>TypeError\<close>: exit code 1, nothing handed to \<^verbatim>\<open>bash\<close>, and in interactive mode no name
  shown.
\<close>

lemma list_command_throws:
  assumes "\<not> panes_present J s"
  shows "exit_code (list_command J s interactive pick) = 1
       \<and> spawned (list_command J s interactive pick) = None
       \<and> last (printed (list_command J s interactive pick)) = Uncaught
       \<and> (interactive \<longrightarrow> printed (list_command J s interactive pick) = [Uncaught])"
proof -
  obtain shown where shown: "list_entries J s = Inl shown"
    using assms list_loop_throws [of J s "getWorkspaces s"]
    by (auto simp: panes_present_def list_entries_def)
  have "getWorkspaces s \<noteq> []"
    using assms by (auto simp: panes_present_def)
  then show ?thesis
    by (simp add: list_command_def shown report_def)
qed


lemma example_json_simps:
  "stringify example_json dev_layout = dev_json"
  "stringify example_json (dev_layout\<lparr>name := ''work''\<rparr>) = work_json"
  "stringify example_json fresh_layout = fresh_json"
  "parse example_json dev_json = Truthy (Layout dev_layout)"
  "parse example_json work_json = Truthy (Layout (dev_layout\<lparr>name := ''work''\<rparr>))"
  "parse example_json fresh_json = Truthy (Layout fresh_layout)"
  by (simp_all add: example_json_def table_json_def dev_layout_def fresh_layout_def
        initial_config_def dev_json_def work_json_def fresh_json_def)

lemma odd_json: "loadConfig example_json odd_storage ''odd'' = Some (Without_Panes True)"
  by (simp add: loadConfig_def readFile_def odd_storage_def example_json_def table_json_def
        dev_json_def work_json_def fresh_json_def)

text \<open>
  The workspace odd, whose descriptor is the text \<^verbatim>\<open>{}\<close>, is found by \<^verbatim>\<open>edit\<close> and
  \<^verbatim>\<open>rename\<close>: \<^verbatim>\<open>Save and exit\<close> ends with the uncaught \<^verbatim>\<open>TypeError\<close> and writes nothing;
  \<^verbatim>\<open>rename\<close> moves both files and then reports the failure.
\<close>

lemma odd_workspace_edit:
  "printed (edit_command example_json odd_storage ''odd'' [EBase_Directory ''/x'', ESave_And_Exit])
     = [Uncaught]
   \<and> exit_code (edit_command example_json odd_storage ''odd'' [EBase_Directory ''/x'', ESave_And_Exit])
     = 1
   \<and> files (edit_command example_json odd_storage ''odd'' [EBase_Directory ''/x'', ESave_And_Exit])
     = odd_storage"
  by (simp add: edit_command_def odd_json edit_end_def report_def)

lemma odd_workspace_rename:
  "rename_command example_json odd_storage (Some ''odd'') (Some ''even'')
      \<lparr>picked = [], typed = [], confirmed = True\<rparr>
     = report \<lparr>script_dir = Some [(''dev.sh'', dev_script), (''even.sh'', dev_script)],
               config_dir = Some [(''even.json'', ''{}'')]\<rparr> 0 [Failed_To_Rename Type_Error]"
proof -
  have names: "getWorkspaces odd_storage = [''odd'', ''dev'']"
    by (simp add: getWorkspaces_def readdir_def odd_storage_def endsWith_def)
  have fresh: "\<not> existsSync (script_dir odd_storage) ''even.sh''"
    by (simp add: existsSync_def odd_storage_def)
  have "rename_command example_json odd_storage (Some ''odd'') (Some ''even'')
      \<lparr>picked = [], typed = [], confirmed = True\<rparr>
      = rename_files_without_panes odd_storage ''odd'' ''even'' True"
    using fresh by (simp add: rename_command_def names odd_json Let_def)
  also have "\<dots> = report \<lparr>script_dir = Some [(''dev.sh'', dev_script), (''even.sh'', dev_script)],
               config_dir = Some [(''even.json'', ''{}'')]\<rparr> 0 [Failed_To_Rename Type_Error]"
    by (simp add: rename_files_without_panes_def odd_storage_def rename_def Let_def)
  finally show ?thesis .
qed

text \<open>
  \<^verbatim>\<open>rename\<close> does not decide by the descriptor alone: on a storage without any script
  the descriptor of ghost does not load, and \<^verbatim>\<open>rename ghost spirit\<close> reports that there
  are no workspaces and exits with 0, not that ghost was not found. And \<^verbatim>\<open>list\<close> does not
  show every stored script under its name: the script of the workspace my.shell, stored
  without a descriptor, is listed as myell.sh. Nor does \<^verbatim>\<open>list\<close> decide by the script files
  alone: where the descriptor of odd is the text \<^verbatim>\<open>{}\<close>, the script of dev exists and dev
  has no descriptor, yet \<^verbatim>\<open>list\<close> shows no name in interactive mode and ends with exit
  code 1 in both modes.
\<close>

theorem existence_checks_counterexample:
  "loadConfig example_json empty_storage ''ghost'' = None
   \<and> printed (rename_command example_json empty_storage (Some ''ghost'') (Some ''spirit'')
         \<lparr>picked = [], typed = [], confirmed = True\<rparr>) = [No_Workspaces]
   \<and> exit_code (rename_command example_json empty_storage (Some ''ghost'') (Some ''spirit'')
         \<lparr>picked = [], typed = [], confirmed = True\<rparr>) = 0
   \<and> existsSync (script_dir dotted_storage) ''my.shell.sh''
   \<and> descriptor_unusable example_json dotted_storage ''my.shell''
   \<and> printed (list_command example_json dotted_storage True None)
       = [Workspaces [(''myell.sh'', None)], Cancelled]
   \<and> existsSync (script_dir odd_storage) ''dev.sh''
   \<and> descriptor_unusable example_json odd_storage ''dev''
   \<and> printed (list_command example_json odd_storage True (Some ''dev'')) = [Uncaught]
   \<and> exit_code (list_command example_json odd_storage True (Some ''dev'')) = 1
   \<and> spawned (list_command example_json odd_storage True (Some ''dev'')) = None
   \<and> printed (list_command example_json odd_storage False None) = [Workspaces [], Uncaught]
   \<and> exit_code (list_command example_json odd_storage False None) = 1"
proof -
  have "getWorkspaces dotted_storage = [''myell.sh'']"
    by (simp add: getWorkspaces_def readdir_def dotted_storage_def endsWith_def)
  moreover have "loadConfig example_json dotted_storage ''myell.sh'' = None"
    by (simp add: loadConfig_def readFile_def dotted_storage_def)
  ultimately have dotted: "printed (list_command example_json dotted_storage True None)
       = [Workspaces [(''myell.sh'', None)], Cancelled]"
    by (simp add: list_command_def list_entries_def list_entry_def report_def)
  have "existsSync (script_dir dotted_storage) ''my.shell.sh''"
    by (simp add: existsSync_def dotted_storage_def)
  moreover have "descriptor_unusable example_json dotted_storage ''my.shell''"
    by (simp add: descriptor_unusable_def readFile_def dotted_storage_def)
  moreover have "existsSync (script_dir odd_storage) ''dev.sh''"
    by (simp add: existsSync_def odd_storage_def)
  moreover have "descriptor_unusable example_json odd_storage ''dev''"
    by (simp add: descriptor_unusable_def readFile_def odd_storage_def)
  moreover have names: "getWorkspaces odd_storage = [''odd'', ''dev'']"
    by (simp add: getWorkspaces_def readdir_def odd_storage_def endsWith_def)
  moreover have "list_entries example_json odd_storage = Inl []"
    by (simp add: list_entries_def names list_entry_def odd_json)
  ultimately show ?thesis
    using dotted
    by (simp add: loadConfig_def readFile_def empty_storage_def rename_command_def
          list_command_def getWorkspaces_def readdir_def report_def)
qed

text \<open>
  C10, as the program has it. \<^verbatim>\<open>load\<close> runs the script exactly when the script file
  exists; \<^verbatim>\<open>edit\<close> reports not-found exactly when the descriptor does not load;
  \<^verbatim>\<open>rename\<close> reports not-found exactly when some script is stored and the descriptor
  does not load; and where no listed name has a descriptor that loads to a value without
  panes, \<^verbatim>\<open>list\<close> makes its entries, and their names are those of \<^verbatim>\<open>getWorkspaces\<close>, read
  from the script directory alone. So for a name whose script exists and whose descriptor
  is absent or does not parse: \<^verbatim>\<open>load\<close> runs it, \<^verbatim>\<open>edit\<close> and \<^verbatim>\<open>rename\<close> report not-found
  with exit code 1, and, where no listed name has a descriptor without panes, \<^verbatim>\<open>list\<close>
  exits with 0 and shows its entries first, the name among them, without pane count,
  when \<^verbatim>\<open>.sh\<close> does not occur in it.
\<close>

theorem existence_checks:
  "((spawned (load_command s w) = Some (w @ ''.sh'') \<and> exit_code (load_command s w) = 0)
      = existsSync (script_dir s) (w @ ''.sh''))
   \<and> (panes_present J s \<longrightarrow>
        (\<exists>es. list_entries J s = Inr es \<and> map fst es = getWorkspaces s))
   \<and> ((printed (edit_command J s w actions) = [Not_Found w]) = (loadConfig J s w = None))
   \<and> (w \<noteq> [] \<longrightarrow>
        (printed (rename_command J s (Some w) newname_arg answers) = [Not_Found w])
        = (getWorkspaces s \<noteq> [] \<and> loadConfig J s w = None))
   \<and> (existsSync (script_dir s) (w @ ''.sh'') \<and> descriptor_unusable J s w \<longrightarrow>
        spawned (load_command s w) = Some (w @ ''.sh'')
        \<and> (panes_present J s \<longrightarrow>
             (\<exists>es. list_entries J s = Inr es
                  \<and> hd (printed (list_command J s interactive pick)) = Workspaces es
                  \<and> exit_code (list_command J s interactive pick) = 0
                  \<and> (\<not> includes_str w ''.sh'' \<longrightarrow> (w, None) \<in> set es)))
        \<and> printed (edit_command J s w actions) = [Not_Found w]
        \<and> exit_code (edit_command J s w actions) = 1
        \<and> (w \<noteq> [] \<longrightarrow>
             printed (rename_command J s (Some w) newname_arg answers) = [Not_Found w]
             \<and> exit_code (rename_command J s (Some w) newname_arg answers) = 1))"
proof -
  have rename_iff: "(printed (rename_command J s (Some w) newname_arg answers) = [Not_Found w])
      = (getWorkspaces s \<noteq> [] \<and> loadConfig J s w = None)" if "w \<noteq> []"
    by (rule rename_command_not_found) (simp add: that)
  have names: "\<exists>es. list_entries J s = Inr es \<and> map fst es = getWorkspaces s"
    if "panes_present J s"
    using list_entries_complete [OF that] by blast
  have consequence:
    "spawned (load_command s w) = Some (w @ ''.sh'')
        \<and> (panes_present J s \<longrightarrow>
             (\<exists>es. list_entries J s = Inr es
                  \<and> hd (printed (list_command J s interactive pick)) = Workspaces es
                  \<and> exit_code (list_command J s interactive pick) = 0
                  \<and> (\<not> includes_str w ''.sh'' \<longrightarrow> (w, None) \<in> set es)))
        \<and> printed (edit_command J s w actions) = [Not_Found w]
        \<and> exit_code (edit_command J s w actions) = 1
        \<and> (w \<noteq> [] \<longrightarrow>
             printed (rename_command J s (Some w) newname_arg answers) = [Not_Found w]
             \<and> exit_code (rename_command J s (Some w) newname_arg answers) = 1)"
    if ex: "existsSync (script_dir s) (w @ ''.sh'')" and un: "descriptor_unusable J s w"
  proof -
    have none: "loadConfig J s w = None"
      using un by (rule descriptor_unusable_load)
    have listed: "replace (w @ ''.sh'') ''.sh'' [] \<in> set (getWorkspaces s)"
      using ex by (rule listed_workspace)
    then have nonempty: "getWorkspaces s \<noteq> []"
      by auto
    have "\<exists>es. list_entries J s = Inr es
              \<and> hd (printed (list_command J s interactive pick)) = Workspaces es
              \<and> exit_code (list_command J s interactive pick) = 0
              \<and> (\<not> includes_str w ''.sh'' \<longrightarrow> (w, None) \<in> set es)"
      if present: "panes_present J s"
    proof -
      obtain es where es: "list_entries J s = Inr es"
        "\<forall>ws \<in> set (getWorkspaces s). loadConfig J s ws = None \<longrightarrow> (ws, None) \<in> set es"
        using list_entries_complete [OF present] by blast
      have "(w, None) \<in> set es" if "\<not> includes_str w ''.sh''"
      proof -
        have "w \<in> set (getWorkspaces s)"
          using listed replace_sh_suffix [OF that] by simp
        then show ?thesis
          using none es(2) by blast
      qed
      moreover have "hd (printed (list_command J s interactive pick)) = Workspaces es
          \<and> exit_code (list_command J s interactive pick) = 0"
        using nonempty by (simp add: list_command_def es(1) report_def)
      ultimately show ?thesis
        using es(1) by blast
    qed
    moreover have "spawned (load_command s w) = Some (w @ ''.sh'')"
      using ex load_command_runs [of s w] by simp
    moreover have "printed (edit_command J s w actions) = [Not_Found w]"
      using none by (simp add: edit_command_not_found)
    moreover have "exit_code (edit_command J s w actions) = 1"
      using none by (simp add: edit_command_not_found_exit)
    moreover have "printed (rename_command J s (Some w) newname_arg answers) = [Not_Found w]
             \<and> exit_code (rename_command J s (Some w) newname_arg answers) = 1" if "w \<noteq> []"
      using that rename_iff [OF that] nonempty none
        rename_command_not_found_exit [of w "Some w" answers s J newname_arg]
      by simp
    ultimately show ?thesis by blast
  qed
  show ?thesis
    using load_command_runs [of s w] names
      edit_command_not_found [of J s w actions] rename_iff consequence
    by blast
qed

theorem existence_checks_witness:
  "existsSync (script_dir broken_storage) ''dev.sh''
   \<and> descriptor_unusable example_json broken_storage ''dev''
   \<and> panes_present example_json broken_storage
   \<and> \<not> includes_str ''dev'' ''.sh''
   \<and> spawned (load_command broken_storage ''dev'') = Some ''dev.sh''
   \<and> list_entries example_json broken_storage = Inr [(''dev'', None)]
   \<and> hd (printed (list_command example_json broken_storage True None))
       = Workspaces [(''dev'', None)]
   \<and> exit_code (list_command example_json broken_storage True None) = 0
   \<and> printed (edit_command example_json broken_storage ''dev'' [ESave_And_Exit]) = [Not_Found ''dev'']
   \<and> exit_code (edit_command example_json broken_storage ''dev'' [ESave_And_Exit]) = 1
   \<and> printed (rename_command example_json broken_storage (Some ''dev'') (Some ''work'')
        \<lparr>picked = [], typed = [], confirmed = True\<rparr>) = [Not_Found ''dev'']
   \<and> exit_code (rename_command example_json broken_storage (Some ''dev'') (Some ''work'')
        \<lparr>picked = [], typed = [], confirmed = True\<rparr>) = 1"
proof -
  have ex: "existsSync (script_dir broken_storage) (''dev'' @ ''.sh'')"
    by (simp add: broken_storage_def existsSync_def)
  have un: "descriptor_unusable example_json broken_storage ''dev''"
    by (simp add: broken_storage_def descriptor_unusable_def readFile_def example_json_def
          table_json_def dev_json_def work_json_def fresh_json_def)
  have names: "getWorkspaces broken_storage = [''dev'']"
    by (simp add: getWorkspaces_def readdir_def broken_storage_def endsWith_def)
  have none: "loadConfig example_json broken_storage ''dev'' = None"
    using un by (rule descriptor_unusable_load)
  have present: "panes_present example_json broken_storage"
    by (simp add: panes_present_def names none without_panes_def)
  have entries: "list_entries example_json broken_storage = Inr [(''dev'', None)]"
    by (simp add: list_entries_def names list_entry_def none)
  have no: "\<not> includes_str ''dev'' ''.sh''"
    by simp
  show ?thesis
    using existence_checks [of broken_storage "''dev''" example_json "[ESave_And_Exit]"
        "Some ''work''" "\<lparr>picked = [], typed = [], confirmed = True\<rparr>" True None,
        THEN conjunct2]
      ex un present entries no
    by simp
qed

text \<open>
  \<^verbatim>\<open>delete\<close> asks for the confirmation before it looks at any file: when the user
  declines, a workspace that does not exist is not reported, and the exit code is 0.
  When the user confirms, the failure of \<^verbatim>\<open>unlink\<close> is printed and the exit code is 0
  as well.
\<close>

theorem delete_missing_counterexample:
  "\<not> existsSync (script_dir dev_storage) ''ghost.sh''
   \<and> printed (delete_command dev_storage ''ghost'' False) = [Cancelled]
   \<and> exit_code (delete_command dev_storage ''ghost'' False) = 0
   \<and> printed (delete_command dev_storage ''ghost'' True) = [Failed_To_Delete ENOENT]
   \<and> exit_code (delete_command dev_storage ''ghost'' True) = 0"
  by (simp add: dev_storage_def existsSync_def delete_command_def unlink_def report_def)

text \<open>
  C3, as the program has it: \<^verbatim>\<open>delete\<close> of a workspace whose script does not exist
  changes no file; when the user has confirmed it reports that the deletion failed with
  the not-found error of \<^verbatim>\<open>unlink\<close>, and when the user has declined it reports the
  cancellation and exits with 0.
\<close>

theorem delete_missing_workspace:
  assumes "\<not> existsSync (script_dir s) (workspace @ ''.sh'')"
  shows "files (delete_command s workspace sure) = s
       \<and> (if sure then printed (delete_command s workspace sure) = [Failed_To_Delete ENOENT]
          else printed (delete_command s workspace sure) = [Cancelled]
               \<and> exit_code (delete_command s workspace sure) = 0)"
proof -
  have "unlink (script_dir s) (workspace @ ''.sh'') = Inl ENOENT"
    using assms by (auto simp: unlink_def existsSync_def split: option.splits)
  then show ?thesis
    by (simp add: delete_command_def report_def)
qed

theorem delete_missing_workspace_witness:
  "\<not> existsSync (script_dir dev_storage) ''ghost.sh''
   \<and> files (delete_command dev_storage ''ghost'' True) = dev_storage
   \<and> printed (delete_command dev_storage ''ghost'' True) = [Failed_To_Delete ENOENT]
   \<and> files (delete_command dev_storage ''ghost'' False) = dev_storage"
proof -
  have h: "\<not> existsSync (script_dir dev_storage) (''ghost'' @ ''.sh'')"
    by (simp add: dev_storage_def existsSync_def)
  show ?thesis
    using delete_missing_workspace [OF h, of True] delete_missing_workspace [OF h, of False] h
    by simp
qed

lemma fresh_script_differs: "generateScript fresh_layout \<noteq> dev_script"
  by (simp add: generateScript_commands script_header_def fresh_layout_def initial_config_def
        dev_script_def)

text \<open>
  C2 at a concrete input: the storage holds the workspace dev; \<^verbatim>\<open>tx create\<close> in
  \<^verbatim>\<open>/tmp\<close> with the name dev and the entry \<^verbatim>\<open>Create workspace\<close> reports success, exits
  with 0 and has replaced both the script and the descriptor of dev.
\<close>

theorem create_overwrites_existing_workspace:
  "existsSync (script_dir dev_storage) ''dev.sh''
   \<and> readFile (script_dir dev_storage) ''dev.sh'' = Inr dev_script
   \<and> loadConfig example_json dev_storage ''dev'' = Some (Layout dev_layout)
   \<and> create_loop (initial_config ''/tmp'') [CEdit_Name ''dev'', CCreate] = Create_Confirmed fresh_layout
   \<and> printed (create_command example_json dev_storage ''/tmp'' [CEdit_Name ''dev'', CCreate])
       = [Created ''dev'']
   \<and> exit_code (create_command example_json dev_storage ''/tmp'' [CEdit_Name ''dev'', CCreate]) = 0
   \<and> files (create_command example_json dev_storage ''/tmp'' [CEdit_Name ''dev'', CCreate])
       = \<lparr>script_dir = Some [(''dev.sh'', generateScript fresh_layout)],
          config_dir = Some [(''dev.json'', fresh_json)]\<rparr>
   \<and> generateScript fresh_layout \<noteq> dev_script"
proof -
  have loop: "create_loop (initial_config ''/tmp'') [CEdit_Name ''dev'', CCreate] =
              Create_Confirmed fresh_layout"
    by (simp add: fresh_layout_def)
  have nm: "name fresh_layout = ''dev''"
    by (simp add: fresh_layout_def)
  have run: "create_command example_json dev_storage ''/tmp'' [CEdit_Name ''dev'', CCreate] =
        \<lparr>files = \<lparr>script_dir = Some [(''dev.sh'', generateScript fresh_layout)],
                   config_dir = Some [(''dev.json'', fresh_json)]\<rparr>,
         exit_code = 0, printed = [Created ''dev''], spawned = None\<rparr>"
    by (simp only: create_command_def loop create_outcome.case)
       (simp add: nm write_workspace_def writeFile_def saveConfig_def
          dev_storage_def report_def example_json_simps)
  have old: "loadConfig example_json dev_storage ''dev'' = Some (Layout dev_layout)"
    by (simp add: loadConfig_def readFile_def dev_storage_def example_json_simps)
  show ?thesis
    using loop run old fresh_script_differs
    by (simp add: dev_storage_def existsSync_def readFile_def)
qed

lemma saveConfig_Some:
  "config_dir s = Some es \<Longrightarrow>
   saveConfig J s nm c =
     Inr (s\<lparr>config_dir := Some (AList.update (nm @ ''.json'') (stringify J c) es)\<rparr>)"
  by (simp add: saveConfig_def writeFile_def)

lemma saveConfig_None: "config_dir s = None \<Longrightarrow> saveConfig J s nm c = Inl ENOENT"
  by (simp add: saveConfig_def writeFile_def)

lemma loadConfig_after_save:
  assumes "saveConfig J s nm c = Inr s'" and "parse J (stringify J c) = Truthy (Layout c)"
  shows "loadConfig J s' nm = Some (Layout c)"
proof (cases "config_dir s")
  case None
  with assms(1) show ?thesis by (simp add: saveConfig_None)
next
  case (Some es)
  with assms(1) have "s' = s\<lparr>config_dir := Some (AList.update (nm @ ''.json'') (stringify J c) es)\<rparr>"
    by (simp add: saveConfig_Some)
  then show ?thesis
    using assms(2) by (simp add: loadConfig_def readFile_def update_conv')
qed

text \<open>
  C8: for a layout that the runtime's JSON reads back from its own text, \<^verbatim>\<open>saveConfig\<close>
  under a name succeeds whenever the descriptor directory exists, and after a successful
  save \<^verbatim>\<open>loadConfig\<close> of that name gives the layout back, equal in all fields.
\<close>

theorem save_then_load:
  assumes "parse J (stringify J L) = Truthy (Layout L)"
  shows "(config_dir s \<noteq> None \<longrightarrow> (\<exists>s'. saveConfig J s nm L = Inr s'))
       \<and> (\<forall>s'. saveConfig J s nm L = Inr s' \<longrightarrow> loadConfig J s' nm = Some (Layout L))"
  using assms by (auto simp: saveConfig_Some loadConfig_after_save)

theorem save_then_load_witness:
  "parse example_json (stringify example_json dev_layout) = Truthy (Layout dev_layout)
   \<and> saveConfig example_json empty_storage ''dev'' dev_layout =
        Inr \<lparr>script_dir = Some [], config_dir = Some [(''dev.json'', dev_json)]\<rparr>
   \<and> loadConfig example_json \<lparr>script_dir = Some [], config_dir = Some [(''dev.json'', dev_json)]\<rparr>
        ''dev'' = Some (Layout dev_layout)"
proof -
  have h: "parse example_json (stringify example_json dev_layout) = Truthy (Layout dev_layout)"
    by (simp add: example_json_simps)
  have sv: "saveConfig example_json empty_storage ''dev'' dev_layout =
        Inr \<lparr>script_dir = Some [], config_dir = Some [(''dev.json'', dev_json)]\<rparr>"
    by (simp add: saveConfig_def writeFile_def empty_storage_def example_json_simps)
  show ?thesis
    using save_then_load [OF h, of empty_storage "''dev''"] h sv by simp
qed

lemma rename_files_success:
  assumes ok: "printed (rename_files J s old new c) = [Renamed]"
    and rt: "parse J (stringify J (c\<lparr>name := new\<rparr>)) = Truthy (Layout (c\<lparr>name := new\<rparr>))"
    and fresh: "\<not> existsSync (script_dir s) (new @ ''.sh'')"
    and desc: "existsSync (config_dir s) (old @ ''.json'')"
  shows "\<not> existsSync (script_dir (files (rename_files J s old new c))) (old @ ''.sh'')
       \<and> \<not> existsSync (config_dir (files (rename_files J s old new c))) (old @ ''.json'')
       \<and> readFile (script_dir (files (rename_files J s old new c))) (new @ ''.sh'')
           = Inr (generateScript (c\<lparr>name := new\<rparr>))
       \<and> loadConfig J (files (rename_files J s old new c)) new = Some (Layout (c\<lparr>name := new\<rparr>))"
proof -
  obtain sd where sd: "rename (script_dir s) (old @ ''.sh'') (new @ ''.sh'') = Inr sd"
    using ok by (cases "rename (script_dir s) (old @ ''.sh'') (new @ ''.sh'')")
      (simp_all add: rename_files_def report_def Let_def)
  then obtain es content where es: "script_dir s = Some es" "map_of es (old @ ''.sh'') = Some content"
    by (auto simp: rename_def split: option.splits)
  have neq: "old \<noteq> new"
    using fresh es by (auto simp: existsSync_def)
  have sd_eq: "sd = AList.update (new @ ''.sh'') content (AList.delete (old @ ''.sh'') es)"
    using sd es neq by (simp add: rename_def)
  obtain ds dcontent where ds: "config_dir s = Some ds" "map_of ds (old @ ''.json'') = Some dcontent"
    using desc by (auto simp: existsSync_def split: option.splits)
  define cd where "cd = AList.update (new @ ''.json'') dcontent (AList.delete (old @ ''.json'') ds)"
  have rn: "rename (config_dir s) (old @ ''.json'') (new @ ''.json'') = Inr cd"
    using ds neq by (simp add: rename_def cd_def)
  define sd' where "sd' = AList.update (new @ ''.sh'') (generateScript (c\<lparr>name := new\<rparr>)) sd"
  define cd' where "cd' = AList.update (new @ ''.json'') (stringify J (c\<lparr>name := new\<rparr>)) cd"
  have run: "rename_files J s old new c =
             report (s\<lparr>script_dir := Some sd', config_dir := Some cd'\<rparr>) 0 [Renamed]"
    by (simp add: rename_files_def Let_def sd rn writeFile_def saveConfig_def sd'_def cd'_def)
  have f: "files (rename_files J s old new c) = s\<lparr>script_dir := Some sd', config_dir := Some cd'\<rparr>"
    by (simp add: run report_def)
  have 1: "map_of sd' (old @ ''.sh'') = None"
    using neq by (simp add: sd'_def sd_eq update_conv' delete_conv')
  have 2: "map_of cd' (old @ ''.json'') = None"
    using neq by (simp add: cd'_def cd_def update_conv' delete_conv')
  have 3: "map_of sd' (new @ ''.sh'') = Some (generateScript (c\<lparr>name := new\<rparr>))"
    by (simp add: sd'_def update_conv')
  have 4: "map_of cd' (new @ ''.json'') = Some (stringify J (c\<lparr>name := new\<rparr>))"
    by (simp add: cd'_def update_conv')
  show ?thesis
    using 1 2 3 4 rt by (simp add: f existsSync_def readFile_def loadConfig_def)
qed

lemma loadConfig_Some_exists: "loadConfig J s w = Some c \<Longrightarrow> existsSync (config_dir s) (w @ ''.json'')"
  by (auto simp: loadConfig_def readFile_def existsSync_def split: option.splits sum.splits)

lemma rename_files_without_panes_renamed:
  "printed (rename_files_without_panes s old new obj) \<noteq> [Renamed]"
  by (simp add: rename_files_without_panes_def report_def Let_def split: sum.splits)

lemma readFile_existsSync: "readFile d f = Inr content \<Longrightarrow> existsSync d f"
  by (auto simp: readFile_def existsSync_def split: option.splits)

text \<open>
  C4: after a rename that reports success, neither the script nor the descriptor of the
  old name exists, the script and the descriptor of the new name exist, and the
  descriptor of the new name loads to a layout whose name is the new name. The old and
  the new name are the arguments, or the answers to the prompts where an argument is
  missing; the runtime's JSON reads the renamed layout back from its own text.
\<close>

theorem rename_success:
  assumes ok: "printed (rename_command J s workspace_arg newname_arg answers) = [Renamed]"
    and old: "old = (if \<not> truthy workspace_arg then picked answers else the workspace_arg)"
    and new: "new = (if \<not> truthy newname_arg then typed answers else the newname_arg)"
    and rt: "\<forall>c. loadConfig J s old = Some (Layout c) \<longrightarrow>
                 parse J (stringify J (c\<lparr>name := new\<rparr>)) = Truthy (Layout (c\<lparr>name := new\<rparr>))"
  shows "\<not> existsSync (script_dir (files (rename_command J s workspace_arg newname_arg answers)))
             (old @ ''.sh'')
       \<and> \<not> existsSync (config_dir (files (rename_command J s workspace_arg newname_arg answers)))
             (old @ ''.json'')
       \<and> existsSync (script_dir (files (rename_command J s workspace_arg newname_arg answers)))
             (new @ ''.sh'')
       \<and> existsSync (config_dir (files (rename_command J s workspace_arg newname_arg answers)))
             (new @ ''.json'')
       \<and> (\<exists>c. loadConfig J (files (rename_command J s workspace_arg newname_arg answers)) new
                = Some (Layout c)
              \<and> name c = new)"
proof -
  let ?r = "rename_command J s workspace_arg newname_arg answers"
  obtain v where v: "loadConfig J s old = Some v"
    using ok old by (cases "loadConfig J s old")
      (auto simp: rename_command_def report_def Let_def split: if_splits)
  have fresh: "\<not> existsSync (script_dir s) (new @ ''.sh'')"
    using ok old new v by (auto simp: rename_command_def report_def Let_def split: if_splits)
  have sure: "confirmed answers"
    using ok old new v fresh by (auto simp: rename_command_def report_def Let_def split: if_splits)
  have some: "getWorkspaces s \<noteq> []"
    using ok by (auto simp: rename_command_def report_def)
  have fin: "?r = (case v of Layout c \<Rightarrow> rename_files J s old new c
                        | Without_Panes obj \<Rightarrow> rename_files_without_panes s old new obj)"
    using some v fresh sure unfolding old new by (simp add: rename_command_def Let_def)
  obtain c where c: "loadConfig J s old = Some (Layout c)"
    using ok v fin by (cases v) (simp_all add: rename_files_without_panes_renamed)
  have run: "?r = rename_files J s old new c"
    using fin v c by auto
  have rt': "parse J (stringify J (c\<lparr>name := new\<rparr>)) = Truthy (Layout (c\<lparr>name := new\<rparr>))"
    using rt c by blast
  have ok': "printed (rename_files J s old new c) = [Renamed]"
    using ok run by simp
  note res = rename_files_success [OF ok' rt' fresh loadConfig_Some_exists [OF c]]
  have "existsSync (script_dir (files ?r)) (new @ ''.sh'')"
    using res run by (auto intro: readFile_existsSync)
  moreover have "existsSync (config_dir (files ?r)) (new @ ''.json'')"
    using res run by (auto intro: loadConfig_Some_exists)
  ultimately show ?thesis
    using res run by auto
qed

theorem rename_success_witness:
  "printed (rename_command example_json dev_storage (Some ''dev'') (Some ''work'')
      \<lparr>picked = [], typed = [], confirmed = True\<rparr>) = [Renamed]
   \<and> files (rename_command example_json dev_storage (Some ''dev'') (Some ''work'')
      \<lparr>picked = [], typed = [], confirmed = True\<rparr>) =
       \<lparr>script_dir = Some [(''work.sh'', generateScript (dev_layout\<lparr>name := ''work''\<rparr>))],
        config_dir = Some [(''work.json'', work_json)]\<rparr>
   \<and> \<not> existsSync (script_dir (files (rename_command example_json dev_storage (Some ''dev'')
        (Some ''work'') \<lparr>picked = [], typed = [], confirmed = True\<rparr>))) ''dev.sh''
   \<and> existsSync (script_dir (files (rename_command example_json dev_storage (Some ''dev'')
        (Some ''work'') \<lparr>picked = [], typed = [], confirmed = True\<rparr>))) ''work.sh''
   \<and> loadConfig example_json (files (rename_command example_json dev_storage (Some ''dev'')
        (Some ''work'') \<lparr>picked = [], typed = [], confirmed = True\<rparr>)) ''work''
       = Some (Layout (dev_layout\<lparr>name := ''work''\<rparr>))"
proof -
  let ?a = "\<lparr>picked = [], typed = [], confirmed = True\<rparr>"
  have ld: "loadConfig example_json dev_storage ''dev'' = Some (Layout dev_layout)"
    by (simp add: loadConfig_def readFile_def dev_storage_def example_json_simps)
  have gw: "getWorkspaces dev_storage = [''dev'']"
    by (simp add: getWorkspaces_def readdir_def dev_storage_def endsWith_def)
  have ex: "\<not> existsSync (script_dir dev_storage) ''work.sh''"
    by (simp add: existsSync_def dev_storage_def)
  have run: "rename_command example_json dev_storage (Some ''dev'') (Some ''work'') ?a =
     \<lparr>files = \<lparr>script_dir = Some [(''work.sh'', generateScript (dev_layout\<lparr>name := ''work''\<rparr>))],
                config_dir = Some [(''work.json'', work_json)]\<rparr>,
      exit_code = 0, printed = [Renamed], spawned = None\<rparr>"
  proof -
    have "rename_command example_json dev_storage (Some ''dev'') (Some ''work'') ?a =
          rename_files example_json dev_storage ''dev'' ''work'' dev_layout"
      using ex by (simp add: rename_command_def gw ld Let_def)
    also have "\<dots> =
     \<lparr>files = \<lparr>script_dir = Some [(''work.sh'', generateScript (dev_layout\<lparr>name := ''work''\<rparr>))],
                config_dir = Some [(''work.json'', work_json)]\<rparr>,
      exit_code = 0, printed = [Renamed], spawned = None\<rparr>"
      by (simp add: rename_files_def dev_storage_def Let_def rename_def writeFile_def
            saveConfig_def report_def example_json_simps)
    finally show ?thesis .
  qed
  have ok: "printed (rename_command example_json dev_storage (Some ''dev'') (Some ''work'') ?a) = [Renamed]"
    by (simp add: run)
  have rt: "\<forall>c. loadConfig example_json dev_storage ''dev'' = Some (Layout c) \<longrightarrow>
        parse example_json (stringify example_json (c\<lparr>name := ''work''\<rparr>))
          = Truthy (Layout (c\<lparr>name := ''work''\<rparr>))"
    by (simp add: ld example_json_simps)
  have l: "loadConfig example_json
       \<lparr>script_dir = Some [(''work.sh'', generateScript (dev_layout\<lparr>name := ''work''\<rparr>))],
        config_dir = Some [(''work.json'', work_json)]\<rparr> ''work''
         = Some (Layout (dev_layout\<lparr>name := ''work''\<rparr>))"
    by (simp add: loadConfig_def readFile_def example_json_simps)
  show ?thesis
    using rename_success [OF ok _ _ rt] run l
    by (simp add: existsSync_def)
qed

end
